theory Spec2Isabelle
  imports Complex_Main "HOL-Library.AList" "HOL-Library.Word" "HOL-Library.Log_Nat"
begin

section \<open>Data model (types.ts)\<close>

text \<open>
  A JavaScript string is a sequence of 16-bit code units; \<open>str\<close> turns an ASCII
  literal into one. Numbers that the code only ever produces as integers (time stamps,
  counts, the rounded percentage) are \<open>int\<close> or \<open>nat\<close>; the two floating-point
  operations of the percentage are modelled below. An optional property
  (\<open>isStructuredSummary?\<close>, \<open>message?\<close>, \<open>reply?\<close>) is an \<open>option\<close>, with \<open>None\<close>
  for \<open>undefined\<close>.
\<close>

type_synonym jsstring = "16 word list"

definition str :: "string \<Rightarrow> jsstring" where
  "str s = map of_char s"

datatype MessageType = user | assistant | system

record Message =
  type :: MessageType
  content :: jsstring
  timestamp :: int
  isStructuredSummary :: "bool option"

record FrameworkStage =
  key :: jsstring
  title :: jsstring
  description :: jsstring
  icon :: jsstring
  "keywords" :: "jsstring list"

record ChatResponse =
  message :: "jsstring option"
  reply :: "jsstring option"

text \<open>
  A stage as it arrives from \<open>/api/config\<close>, before \<open>chatAPI.loadFrameworkStages\<close>
  fills in the defaults: \<open>icon\<close> and \<open>keywords\<close> may be missing there. The chain
  \<open>data.config?.framework?.stages\<close> may stop at any of its three links.
\<close>

record ConfigStage =
  cs_key :: jsstring
  cs_title :: jsstring
  cs_description :: jsstring
  cs_icon :: "jsstring option"
  cs_keywords :: "jsstring list option"

record ConfigFramework =
  stages :: "ConfigStage list option"

record ConfigBody =
  framework :: "ConfigFramework option"

record ConfigResponse =
  config :: "ConfigBody option"

text \<open>
  \<open>Record<string, boolean>\<close>: an object, modelled by the association list of its own
  properties in insertion order (an object has every key once, which is
  \<open>distinct (map fst p)\<close>; an engine lists keys that are array indices first, and
  nothing here depends on the order). Its prototype is \<open>Object.prototype\<close>, which shows in two
  places, modelled by \<open>truthy_entry\<close> and \<open>assign\<close> below.
\<close>

type_synonym Progress = "(jsstring \<times> bool) list"

text \<open>The part of the state of the \<open>App\<close> component that its handlers read and write.\<close>

record AppState =
  messages :: "Message list"
  newMessage :: jsstring
  loading :: bool
  frameworkLoading :: bool
  frameworkProgress :: Progress
  frameworkSteps :: "FrameworkStage list"

text \<open>A thrown \<open>Error\<close> carries its message; a function that may throw returns a sum.\<close>

datatype error = Error jsstring

text \<open>
  What \<open>fetch\<close> and the following \<open>response.json()\<close> did: the request itself was
  rejected (no connection), or a response came back with a status and the outcome of
  parsing its body.
\<close>

datatype 'a fetch_outcome =
  FetchRejected jsstring
  | FetchResponse nat "error + 'a"

type_synonym LocalStorage = "jsstring \<rightharpoonup> jsstring"

section \<open>Primitives of the runtime\<close>

subsection \<open>Strings\<close>

text \<open>
  \<open>String.prototype.toLowerCase\<close> follows the case mapping of the Unicode version the
  engine was built with, a table that is no part of this repository: every function
  that lower-cases takes it as its first argument \<open>toLowerCase\<close>, and the theorems
  hold for every such function. What every engine agrees on is the mapping of ASCII
  text, which \<open>ascii_toLowerCase\<close> computes: \<open>lowercases_ascii\<close> says that a
  lower-casing function agrees with it on strings of ASCII code units.
\<close>

type_synonym LowerCase = "jsstring \<Rightarrow> jsstring"

definition ascii_toLowerCase :: LowerCase where
  "ascii_toLowerCase s = map (\<lambda>u. if 0x41 \<le> u \<and> u \<le> 0x5A then u + 0x20 else u) s"

definition lowercases_ascii :: "LowerCase \<Rightarrow> bool" where
  "lowercases_ascii toLowerCase =
     (\<forall>s. list_all (\<lambda>u. u < 0x80) s \<longrightarrow> toLowerCase s = ascii_toLowerCase s)"

text \<open>\<open>String.prototype.includes\<close>: the substring test on code units.\<close>

fun startsWith :: "'a list \<Rightarrow> 'a list \<Rightarrow> bool" where
  "startsWith s [] = True"
| "startsWith [] (p # ps) = False"
| "startsWith (c # cs) (p # ps) = (c = p \<and> startsWith cs ps)"

fun includes_str :: "'a list \<Rightarrow> 'a list \<Rightarrow> bool" where
  "includes_str [] pat = (pat = [])"
| "includes_str (c # cs) pat = (startsWith (c # cs) pat \<or> includes_str cs pat)"

text \<open>
  \<open>String.prototype.trim\<close> removes white space and line terminators at both ends:
  TAB, LF, VT, FF, CR, the space, the no-break space, the other space separators of
  Unicode, the line and paragraph separators and the byte order mark.
\<close>

definition isWhiteSpace :: "16 word \<Rightarrow> bool" where
  "isWhiteSpace u =
     (u \<in> set [0x09, 0x0A, 0x0B, 0x0C, 0x0D, 0x20, 0xA0, 0x1680,
               0x2000, 0x2001, 0x2002, 0x2003, 0x2004, 0x2005, 0x2006, 0x2007, 0x2008,
               0x2009, 0x200A, 0x2028, 0x2029, 0x202F, 0x205F, 0x3000, 0xFEFF])"

definition trim :: "jsstring \<Rightarrow> jsstring" where
  "trim s = rev (dropWhile isWhiteSpace (rev (dropWhile isWhiteSpace s)))"

text \<open>
  The string of an integer is its decimal numeral (as it is for every integer below
  \<open>10^21\<close>, which covers counts, percentages and time stamps).
\<close>

definition digit_char :: "nat \<Rightarrow> 16 word" where
  "digit_char d = str ''0123456789'' ! d"

function toString_nat :: "nat \<Rightarrow> jsstring" where
  "toString_nat n =
     (if n < 10 then [digit_char n] else toString_nat (n div 10) @ [digit_char (n mod 10)])"
  by pat_completeness auto
termination
  by (relation "measure (\<lambda>n. n)") auto

definition toString_int :: "int \<Rightarrow> jsstring" where
  "toString_int i =
     (if i < 0 then str ''-'' @ toString_nat (nat (- i)) else toString_nat (nat i))"

subsection \<open>Numbers\<close>

text \<open>
  A Number is an IEEE 754 double. \<open>fl x\<close> is the double nearest to the rational \<open>x\<close>,
  a tie going to the even mantissa: with \<open>e = exponent x\<close> the largest power of two not
  above \<open>x\<close>, the mantissa \<open>x / 2^(e - 52)\<close> is rounded to an integer of 53 bits.
  Division and multiplication of doubles return \<open>fl\<close> of the exact result. Overflow and
  subnormal numbers are left out: the values here are quotients of array lengths and
  their hundredfold. \<open>Math.round\<close> is exact on a double: the nearest integer, a tie
  going up.
\<close>

definition round_half_even :: "rat \<Rightarrow> int" where
  "round_half_even m =
     (let f = \<lfloor>m\<rfloor>; d = m - of_int f
      in if d < 1 / 2 then f else if 1 / 2 < d then f + 1 else if even f then f else f + 1)"

definition exponent :: "rat \<Rightarrow> int" where
  "exponent x =
     (let (a, b) = quotient_of x; k = bitlen a - bitlen b
      in if 2 powi k \<le> x then k else k - 1)"

definition fl_pos :: "rat \<Rightarrow> rat" where
  "fl_pos x =
     (let e = exponent x
      in of_int (round_half_even (x * 2 powi (52 - e))) * 2 powi (e - 52))"

definition fl :: "rat \<Rightarrow> rat" where
  "fl x = (if x = 0 then 0 else if 0 < x then fl_pos x else - fl_pos (- x))"

definition Math_round :: "rat \<Rightarrow> int" where
  "Math_round x = \<lfloor>x + 1 / 2\<rfloor>"

subsection \<open>Objects\<close>

text \<open>
  The properties every object inherits from \<open>Object.prototype\<close>; all of them are
  functions but \<open>__proto__\<close>, an accessor whose getter returns the prototype. Reading
  \<open>obj[k]\<close> where the object has no own property \<open>k\<close> finds them, and each is truthy.
  Assigning \<open>obj[k] = v\<close> sets or adds an own property, except for \<open>__proto__\<close> on an
  object without an own property of that name: the assignment then runs the setter,
  which ignores a boolean.
\<close>

definition Object_prototype_keys :: "jsstring list" where
  "Object_prototype_keys =
     map str [''constructor'', ''__defineGetter__'', ''__defineSetter__'',
              ''hasOwnProperty'', ''__lookupGetter__'', ''__lookupSetter__'',
              ''isPrototypeOf'', ''propertyIsEnumerable'', ''toString'', ''valueOf'',
              ''__proto__'', ''toLocaleString'']"

definition truthy_entry :: "Progress \<Rightarrow> jsstring \<Rightarrow> bool" where
  "truthy_entry obj k =
     (case map_of obj k of Some v \<Rightarrow> v | None \<Rightarrow> k \<in> set Object_prototype_keys)"

definition assign :: "jsstring \<Rightarrow> bool \<Rightarrow> Progress \<Rightarrow> Progress" where
  "assign k v obj =
     (if k = str ''__proto__'' \<and> map_of obj k = None then obj else AList.update k v obj)"

section \<open>utils.ts\<close>

subsection \<open>API utilities\<close>

definition response_ok :: "nat \<Rightarrow> bool" where
  "response_ok status = (200 \<le> status \<and> status \<le> 299)"

definition chatAPI_sendMessage :: "ChatResponse fetch_outcome \<Rightarrow> error + ChatResponse" where
  "chatAPI_sendMessage outcome =
     (case outcome of
        FetchRejected m \<Rightarrow> Inl (Error m)
      | FetchResponse status body \<Rightarrow>
          if \<not> response_ok status
          then Inl (Error (str ''HTTP error! status: '' @ toString_nat status))
          else body)"

text \<open>The default icon, as the literal stands in the source file.\<close>

definition default_icon :: jsstring where
  "default_icon = [0xF8FF, 0xFC, 0xEC, 0xE5]"

definition stage_of_config :: "ConfigStage \<Rightarrow> FrameworkStage" where
  "stage_of_config stage =
     \<lparr> key = cs_key stage,
       title = cs_title stage,
       description = cs_description stage,
       icon = (case cs_icon stage of
                 None \<Rightarrow> default_icon
               | Some i \<Rightarrow> if i = [] then default_icon else i),
       keywords = (case cs_keywords stage of None \<Rightarrow> [] | Some ks \<Rightarrow> ks) \<rparr>"

definition config_stages :: "ConfigResponse \<Rightarrow> ConfigStage list option" where
  "config_stages data =
     (case config data of
        None \<Rightarrow> None
      | Some c \<Rightarrow> (case framework c of None \<Rightarrow> None | Some f \<Rightarrow> stages f))"

definition chatAPI_loadFrameworkStages ::
  "ConfigResponse fetch_outcome \<Rightarrow> error + FrameworkStage list" where
  "chatAPI_loadFrameworkStages outcome =
     (case outcome of
        FetchRejected m \<Rightarrow> Inl (Error m)
      | FetchResponse status body \<Rightarrow>
          if \<not> response_ok status
          then Inl (Error (str ''API config endpoint failed: '' @ toString_nat status))
          else (case body of
                  Inl e \<Rightarrow> Inl e
                | Inr data \<Rightarrow>
                    (case config_stages data of
                       Some ss \<Rightarrow> Inr (map stage_of_config ss)
                     | None \<Rightarrow> Inl (Error (str ''Framework stages not found in config'')))))"

subsection \<open>Session management\<close>

text \<open>
  \<open>getSessionId\<close> reads the clock (\<open>Date.now()\<close>, passed in as \<open>now\<close>) and reads and
  writes \<open>localStorage\<close>, which is passed in and returned. A stored empty string is
  falsy, like a missing item.
\<close>

definition getSessionId :: "int \<Rightarrow> LocalStorage \<Rightarrow> jsstring \<times> LocalStorage" where
  "getSessionId now localStorage =
     (case localStorage (str ''dt-session-id'') of
        Some sessionId \<Rightarrow>
          if sessionId = []
          then (str ''session-'' @ toString_int now,
                localStorage(str ''dt-session-id'' \<mapsto> str ''session-'' @ toString_int now))
          else (sessionId, localStorage)
      | None \<Rightarrow>
          (str ''session-'' @ toString_int now,
           localStorage(str ''dt-session-id'' \<mapsto> str ''session-'' @ toString_int now)))"

subsection \<open>Framework progress tracking\<close>

text \<open>
  \<open>stage.keywords || []\<close> is \<open>stage.keywords\<close> for every value of the declared type
  \<open>string[]\<close> (an array is truthy, also the empty one).
\<close>

definition found :: "LowerCase \<Rightarrow> jsstring \<Rightarrow> FrameworkStage \<Rightarrow> bool" where
  "found toLowerCase lower stage =
     list_ex (\<lambda>keyword. includes_str lower (toLowerCase keyword)) (keywords stage)"

definition updateFrameworkProgress ::
  "LowerCase \<Rightarrow> jsstring \<Rightarrow> FrameworkStage list \<Rightarrow> Progress \<Rightarrow> Progress" where
  "updateFrameworkProgress toLowerCase content' frameworkSteps' currentProgress =
     (let lower = toLowerCase content' in
      fold (\<lambda>stage newProgress.
              if found toLowerCase lower stage then assign (key stage) True newProgress
              else newProgress)
        frameworkSteps' currentProgress)"

subsection \<open>Export utilities\<close>

text \<open>
  \<open>generateStructuredOutput\<close> reads the clock once, for the date line:
  \<open>today\<close> stands for \<open>new Date().toLocaleDateString('de-DE')\<close>. The body of the
  \<open>forEach\<close> over the completed steps is \<open>emit_step\<close>, which appends to the output
  built so far. The filter keeps a step when \<open>frameworkProgress[step.key]\<close> is truthy.
\<close>

definition relevantMessages ::
  "LowerCase \<Rightarrow> Message list \<Rightarrow> FrameworkStage \<Rightarrow> Message list" where
  "relevantMessages toLowerCase msgs step =
     filter (\<lambda>msg. type msg = assistant \<and>
                   includes_str (toLowerCase (content msg)) (toLowerCase (key step))) msgs"

definition emit_step ::
  "LowerCase \<Rightarrow> Message list \<Rightarrow> FrameworkStage \<Rightarrow> jsstring \<Rightarrow> jsstring" where
  "emit_step toLowerCase msgs step output =
     (let output1 = output @ str ''## '' @ icon step @ str '' '' @ title step
                      @ str ''\<newline>'';
          output2 = output1 @ description step @ str ''\<newline>\<newline>''
      in if length (relevantMessages toLowerCase msgs step) > 0
         then output2 @ content (relevantMessages toLowerCase msgs step ! 0)
                @ str ''\<newline>\<newline>''
         else output2)"

definition generateStructuredOutput ::
  "LowerCase \<Rightarrow> jsstring \<Rightarrow> Message list \<Rightarrow> FrameworkStage list \<Rightarrow> Progress \<Rightarrow> int
     \<Rightarrow> jsstring" where
  "generateStructuredOutput toLowerCase today msgs frameworkSteps' frameworkProgress'
       progressPercentage' =
     (let completedSteps =
            filter (\<lambda>step. truthy_entry frameworkProgress' (key step)) frameworkSteps';
          output0 = str ''# Design Thinking Analyse\<newline>\<newline>'';
          output1 = output0 @ str ''**Datum:** '' @ today @ str ''\<newline>'';
          output2 = output1 @ str ''**Fortschritt:** '' @ toString_int progressPercentage'
                      @ str ''%\<newline>\<newline>'';
          output3 = fold (emit_step toLowerCase msgs) completedSteps output2;
          output4 = output3 @ str ''---\<newline>\<newline>'';
          output5 = output4
                      @ str ''**Generiert durch Design Thinking Coach v1.0**\<newline>''
      in output5 @ str ''**Session-Nachrichten:** ''
           @ toString_nat (length (filter (\<lambda>m. type m = user) msgs)) @ str ''\<newline>'')"

section \<open>App.tsx\<close>

text \<open>
  The percentage: the number of own values of the progress map that are \<open>true\<close>,
  divided by the number of stages and multiplied by 100, both in doubles, then rounded.
\<close>

definition progressPercentage :: "FrameworkStage list \<Rightarrow> Progress \<Rightarrow> int" where
  "progressPercentage frameworkSteps' frameworkProgress' =
     (if length frameworkSteps' > 0
      then Math_round
             (fl (fl (of_nat (length (filter (\<lambda>v. v = True) (map snd frameworkProgress')))
                        / of_nat (length frameworkSteps')) * 100))
      else 0)"

definition initialProgress :: "FrameworkStage list \<Rightarrow> Progress" where
  "initialProgress stages' = fold (\<lambda>step ip. assign (key step) False ip) stages' []"

definition loadFrameworkStages :: "ConfigResponse fetch_outcome \<Rightarrow> AppState \<Rightarrow> AppState" where
  "loadFrameworkStages outcome st =
     (case chatAPI_loadFrameworkStages outcome of
        Inr stages' \<Rightarrow>
          st\<lparr> frameworkSteps := stages',
              frameworkProgress := initialProgress stages',
              frameworkLoading := False \<rparr>
      | Inl e \<Rightarrow>
          st\<lparr> frameworkSteps := [], frameworkProgress := [], frameworkLoading := False \<rparr>)"

text \<open>
  \<open>handleReloadFramework\<close>: \<open>loadFrameworkStages\<close> catches every error itself, so the
  \<open>catch\<close> of the handler is never entered and the message of success is appended
  whatever the reload did.
\<close>

definition handleReloadFramework ::
  "int \<Rightarrow> ConfigResponse fetch_outcome \<Rightarrow> AppState \<Rightarrow> AppState" where
  "handleReloadFramework now outcome st =
     (let st1 = loadFrameworkStages outcome st;
          systemMsg = \<lparr> type = system,
                        content = [0x2705] @ str '' Framework-Stufen wurden neu geladen.'',
                        timestamp = now, isStructuredSummary = None \<rparr>
      in st1\<lparr> messages := messages st1 @ [systemMsg] \<rparr>)"

definition truthy :: "jsstring option \<Rightarrow> bool" where
  "truthy v = (case v of None \<Rightarrow> False | Some s \<Rightarrow> s \<noteq> [])"

definition reply_text :: "ChatResponse \<Rightarrow> jsstring" where
  "reply_text response =
     (if truthy (message response) then the (message response)
      else if truthy (reply response) then the (reply response)
      else str ''Keine Antwort erhalten'')"

definition errorMessage :: "error \<Rightarrow> jsstring" where
  "errorMessage e =
     (case e of Error m \<Rightarrow>
        str ''Entschuldigung, es gab einen Fehler bei der Verbindung.'' @
        (if includes_str m (str ''Failed to fetch'')
         then str '' Bitte stellen Sie sicher, dass der Backend-Server l'' @ [0xE4]
                @ str ''uft (http://localhost:8000).''
         else if includes_str m (str ''404'')
         then str '' API-Endpoint nicht gefunden. '' @ [0xDC]
                @ str ''berpr'' @ [0xFC] @ str ''fen Sie die Backend-Konfiguration.''
         else []))"

text \<open>
  \<open>handleSendMessage\<close>, run to its end with nothing else changing the state meanwhile:
  \<open>outcome\<close> is what the request to \<open>/api/chat\<close> did, and \<open>now1\<close>, \<open>now2\<close>,
  \<open>now3\<close> are the three readings of the clock (the user message, the session id, the
  reply). The user message is appended before the request; the \<open>try\<close> appends the
  reply and updates the progress, the \<open>catch\<close> appends the failure message, and
  \<open>finally\<close> clears \<open>loading\<close>.
\<close>

definition handleSendMessage ::
  "LowerCase \<Rightarrow> int \<Rightarrow> int \<Rightarrow> int \<Rightarrow> ChatResponse fetch_outcome \<Rightarrow> LocalStorage \<Rightarrow> AppState
     \<Rightarrow> AppState \<times> LocalStorage" where
  "handleSendMessage toLowerCase now1 now2 now3 outcome localStorage st =
     (if trim (newMessage st) = [] \<or> loading st then (st, localStorage)
      else
        let userMessage = trim (newMessage st);
            userMsg = \<lparr> type = user, content = userMessage, timestamp = now1,
                        isStructuredSummary = None \<rparr>;
            st1 = st\<lparr> newMessage := [], loading := True,
                      messages := messages st @ [userMsg] \<rparr>;
            localStorage' = snd (getSessionId now2 localStorage)
        in case chatAPI_sendMessage outcome of
             Inr response \<Rightarrow>
               let assistantMsg = \<lparr> type = assistant, content = reply_text response,
                                    timestamp = now3, isStructuredSummary = None \<rparr>
               in (st1\<lparr> messages := messages st1 @ [assistantMsg],
                        frameworkProgress :=
                          updateFrameworkProgress toLowerCase (content assistantMsg)
                            (frameworkSteps st) (frameworkProgress st),
                        loading := False \<rparr>,
                   localStorage')
           | Inl e \<Rightarrow>
               let errorMsg = \<lparr> type = assistant, content = errorMessage e,
                                timestamp = now3, isStructuredSummary = None \<rparr>
               in (st1\<lparr> messages := messages st1 @ [errorMsg], loading := False \<rparr>,
                   localStorage'))"

section \<open>The export document as the specification describes it\<close>

text \<open>
  The specification describes the export by its parts: a header with the date and the
  percentage, then, in the order of the stage list, one section for every covered stage,
  then the summary with the number of user messages. A section is the heading (icon and
  title), the description and the content of the first assistant message that mentions
  the stage's key, if there is one. Which stages count as covered and what "mentions"
  means are parameters. In the specification's words a stage is covered when its entry
  is \<open>true\<close> (\<open>entry_true\<close>) and a message mentions a key that it contains
  (\<open>contains_key\<close>); \<open>contains_key_ignoring_case\<close> compares the lower-cased text with
  the lower-cased key.
\<close>

definition export_header :: "jsstring \<Rightarrow> int \<Rightarrow> jsstring" where
  "export_header today pct =
     str ''# Design Thinking Analyse\<newline>\<newline>'' @ str ''**Datum:** '' @ today
       @ str ''\<newline>''
       @ str ''**Fortschritt:** '' @ toString_int pct @ str ''%\<newline>\<newline>''"

definition export_section ::
  "(jsstring \<Rightarrow> jsstring \<Rightarrow> bool) \<Rightarrow> Message list \<Rightarrow> FrameworkStage \<Rightarrow> jsstring" where
  "export_section mentions msgs step =
     str ''## '' @ icon step @ str '' '' @ title step @ str ''\<newline>''
       @ description step @ str ''\<newline>\<newline>''
       @ (case find (\<lambda>msg. type msg = assistant \<and> mentions (content msg) (key step)) msgs of
            None \<Rightarrow> []
          | Some msg \<Rightarrow> content msg @ str ''\<newline>\<newline>'')"

definition export_summary :: "Message list \<Rightarrow> jsstring" where
  "export_summary msgs =
     str ''---\<newline>\<newline>''
       @ str ''**Generiert durch Design Thinking Coach v1.0**\<newline>''
       @ str ''**Session-Nachrichten:** ''
       @ toString_nat (length (filter (\<lambda>m. type m = user) msgs)) @ str ''\<newline>''"

definition export_document ::
  "(jsstring \<Rightarrow> bool) \<Rightarrow> (jsstring \<Rightarrow> jsstring \<Rightarrow> bool) \<Rightarrow> jsstring \<Rightarrow> Message list
     \<Rightarrow> FrameworkStage list \<Rightarrow> int \<Rightarrow> jsstring" where
  "export_document covered mentions today msgs steps pct =
     export_header today pct
       @ concat (map (export_section mentions msgs) (filter (\<lambda>step. covered (key step)) steps))
       @ export_summary msgs"

definition entry_true :: "Progress \<Rightarrow> jsstring \<Rightarrow> bool" where
  "entry_true progress k = (map_of progress k = Some True)"

definition contains_key :: "jsstring \<Rightarrow> jsstring \<Rightarrow> bool" where
  "contains_key text k = includes_str text k"

definition contains_key_ignoring_case :: "LowerCase \<Rightarrow> jsstring \<Rightarrow> jsstring \<Rightarrow> bool" where
  "contains_key_ignoring_case toLowerCase text k =
     includes_str (toLowerCase text) (toLowerCase k)"

section \<open>Example inputs\<close>

text \<open>The stage of the spec's scenario A, and the reply of the coach there.\<close>

definition scenarioA_stage :: FrameworkStage where
  "scenarioA_stage =
     \<lparr> key = str ''problem'', title = str ''Problem'',
       description = str ''Kernproblem definieren'', icon = str ''!'',
       keywords = [str ''problem'', str ''issue''] \<rparr>"

definition scenarioA_reply :: jsstring where
  "scenarioA_reply = str ''I see the core problem here''"

text \<open>
  Stages for the edge cases of the keyword list: one without keywords, one whose only
  keyword is the empty string, and one with that keyword under the key \<open>__proto__\<close>.
\<close>

definition silent_stage :: FrameworkStage where
  "silent_stage =
     \<lparr> key = str ''silent'', title = str ''Silent'', description = str ''D'',
       icon = str ''*'', keywords = [] \<rparr>"

definition eager_stage :: FrameworkStage where
  "eager_stage =
     \<lparr> key = str ''eager'', title = str ''Eager'', description = str ''D'',
       icon = str ''*'', keywords = [[]] \<rparr>"

definition proto_eager_stage :: FrameworkStage where
  "proto_eager_stage =
     \<lparr> key = str ''__proto__'', title = str ''Proto'', description = str ''D'',
       icon = str ''*'', keywords = [[]] \<rparr>"

text \<open>
  Stages that share the key \<open>a\<close>: one without keywords, one whose keyword \<open>never\<close>
  is not in the text \<open>x\<close>, and one with the keyword \<open>x\<close>. A stage with the key
  \<open>__proto__\<close> and the keyword \<open>x\<close>, and a stage with the key \<open>constructor\<close>.
\<close>

definition quiet_twin :: FrameworkStage where
  "quiet_twin =
     \<lparr> key = str ''a'', title = str ''Quiet'', description = str ''D'', icon = str ''*'',
       keywords = [] \<rparr>"

definition other_twin :: FrameworkStage where
  "other_twin =
     \<lparr> key = str ''a'', title = str ''Other'', description = str ''D'', icon = str ''*'',
       keywords = [str ''never''] \<rparr>"

definition loud_twin :: FrameworkStage where
  "loud_twin =
     \<lparr> key = str ''a'', title = str ''Loud'', description = str ''D'', icon = str ''*'',
       keywords = [str ''x''] \<rparr>"

definition proto_stage :: FrameworkStage where
  "proto_stage =
     \<lparr> key = str ''__proto__'', title = str ''Proto'', description = str ''D'',
       icon = str ''*'', keywords = [str ''x''] \<rparr>"

definition constructor_stage :: FrameworkStage where
  "constructor_stage =
     \<lparr> key = str ''constructor'', title = str ''Constructor'', description = str ''D'',
       icon = str ''*'', keywords = [] \<rparr>"

text \<open>
  Numbered stages with the keys \<open>stage\<close>, \<open>stageI\<close>, \<open>stageII\<close>, ...: a list of 201
  with a progress map that has all but the first covered, and a list of 40 with a
  progress map that has the first 23 covered.
\<close>

definition numbered_stage :: "nat \<Rightarrow> FrameworkStage" where
  "numbered_stage i =
     \<lparr> key = str ''stage'' @ replicate i 0x49, title = str ''Stage'',
       description = str ''D'', icon = str ''*'', keywords = [] \<rparr>"

definition many_stages :: "FrameworkStage list" where
  "many_stages = map numbered_stage [0..<201]"

definition many_progress :: Progress where
  "many_progress = map (\<lambda>i. (key (numbered_stage i), 0 < i)) [0..<201]"

definition forty_stages :: "FrameworkStage list" where
  "forty_stages = map numbered_stage [0..<40]"

definition forty_progress :: Progress where
  "forty_progress = map (\<lambda>i. (key (numbered_stage i), i < 23)) [0..<40]"

text \<open>
  A history in which the first assistant message names the key \<open>problem\<close> in capitals
  only; a state of the app with one stage loaded and covered and an input between two
  no-break spaces; a failing answer of \<open>/api/chat\<close>; and an answer of \<open>/api/config\<close>
  that parses but has no stage list.
\<close>

definition shouting_history :: "Message list" where
  "shouting_history =
     [\<lparr> type = user, content = str ''We have a problem'', timestamp = 1,
        isStructuredSummary = None \<rparr>,
      \<lparr> type = assistant, content = str ''The PROBLEM is unclear'', timestamp = 2,
        isStructuredSummary = None \<rparr>,
      \<lparr> type = assistant, content = str ''Your problem is X'', timestamp = 3,
        isStructuredSummary = None \<rparr>]"

definition loaded_state :: AppState where
  "loaded_state =
     \<lparr> messages = [], newMessage = [0xA0] @ str ''We have a problem'' @ [0xA0],
       loading = False, frameworkLoading = False,
       frameworkProgress = [(str ''problem'', True)],
       frameworkSteps = [scenarioA_stage] \<rparr>"

definition server_error :: "ChatResponse fetch_outcome" where
  "server_error = FetchResponse 500 (Inr \<lparr> message = None, reply = None \<rparr>)"

definition missing_stages :: "ConfigResponse fetch_outcome" where
  "missing_stages =
     FetchResponse 200 (Inr \<lparr> config = Some \<lparr> framework = Some \<lparr> stages = None \<rparr> \<rparr> \<rparr>)"

section \<open>Properties of the string primitives\<close>

lemma of_char_word_inject: "(of_char x :: 16 word) = of_char y \<longleftrightarrow> x = y"
proof
  assume "(of_char x :: 16 word) = of_char y"
  then have "(of_nat (of_char x) :: 16 word) = of_nat (of_char y)"
    by (simp only: of_nat_of_char)
  then have eq: "take_bit 16 (of_char x :: nat) = take_bit 16 (of_char y :: nat)"
    by (simp add: word_of_nat_eq_iff)
  have small: "(of_char c :: nat) < 2 ^ 16" for c :: char
  proof -
    have "(of_char c :: nat) mod 256 < 256" by (rule mod_less_divisor) simp
    then have "(of_char c :: nat) < 256" by simp
    also have "(256 :: nat) < 2 ^ 16" by simp
    finally show ?thesis .
  qed
  have "take_bit 16 (of_char c :: nat) = of_char c" for c :: char
    using small [of c] by (simp only: take_bit_nat_eq_self)
  then have "(of_char x :: nat) = of_char y" using eq by simp
  then show "x = y" by simp
qed simp

lemma str_inject: "str a = str b \<longleftrightarrow> a = b"
proof -
  have "inj (of_char :: char \<Rightarrow> 16 word)"
    by (rule injI) (simp add: of_char_word_inject)
  then show ?thesis by (auto simp: str_def inj_map_eq_map)
qed

lemma startsWith_iff: "startsWith t p \<longleftrightarrow> (\<exists>suf. t = p @ suf)"
  by (induction t p rule: startsWith.induct) auto

lemma includes_str_empty: "includes_str t []"
  by (cases t) simp_all

lemma lowercases_ascii_ascii: "lowercases_ascii ascii_toLowerCase"
  by (simp add: lowercases_ascii_def)

section \<open>Properties of the progress tracker\<close>

lemma map_of_assign:
  "map_of (assign k' v obj) k =
   (if k' = k \<and> (k = str ''__proto__'' \<longrightarrow> map_of obj k \<noteq> None) then Some v
    else map_of obj k)"
  by (auto simp: assign_def update_conv')

lemma assign_same:
  "map_of obj k = Some v \<or> (k = str ''__proto__'' \<and> map_of obj k = None) \<Longrightarrow>
   assign k v obj = obj"
  by (auto simp: assign_def update_triv)

lemma map_of_fold_mark:
  "map_of (fold (\<lambda>stage newProgress.
                   if found lc lower stage then assign (key stage) True newProgress
                   else newProgress) steps p) k =
   (if (\<exists>s\<in>set steps. key s = k \<and> found lc lower s) \<and>
       (k = str ''__proto__'' \<longrightarrow> map_of p k \<noteq> None)
    then Some True else map_of p k)"
  by (induction steps arbitrary: p) (auto simp: map_of_assign)

lemma fold_mark_fixed:
  "(\<And>s. s \<in> set steps \<Longrightarrow> found lc lower s \<Longrightarrow> assign (key s) True q = q) \<Longrightarrow>
   fold (\<lambda>stage newProgress.
           if found lc lower stage then assign (key stage) True newProgress
           else newProgress) steps q = q"
  by (induction steps) auto

lemma map_of_updateFrameworkProgress:
  "map_of (updateFrameworkProgress lc t steps p) k =
   (if (\<exists>s\<in>set steps. key s = k \<and> found lc (lc t) s) \<and>
       (k = str ''__proto__'' \<longrightarrow> map_of p k \<noteq> None)
    then Some True else map_of p k)"
  by (simp add: updateFrameworkProgress_def map_of_fold_mark)

lemma updateFrameworkProgress_twice:
  "updateFrameworkProgress lc t steps (updateFrameworkProgress lc t steps p) =
   updateFrameworkProgress lc t steps p"
  unfolding updateFrameworkProgress_def Let_def
proof (rule fold_mark_fixed)
  fix s
  assume "s \<in> set steps" "found lc (lc t) s"
  then show "assign (key s) True
      (fold (\<lambda>stage newProgress.
           if found lc (lc t) stage then assign (key stage) True newProgress
           else newProgress) steps p) =
      fold (\<lambda>stage newProgress.
           if found lc (lc t) stage then assign (key stage) True newProgress
           else newProgress) steps p"
    by (intro assign_same) (auto simp: map_of_fold_mark)
qed

text \<open>
  Claim C1. Progress is monotonic: whatever the text and the stage list, an entry that is
  \<open>true\<close> in the progress map given to \<open>updateFrameworkProgress\<close> is \<open>true\<close> in the
  map it returns. A stage once marked covered stays covered under every later update.
\<close>

theorem updateFrameworkProgress_monotonic:
  "map_of p k = Some True \<Longrightarrow> map_of (updateFrameworkProgress lc t steps p) k = Some True"
  by (simp add: map_of_updateFrameworkProgress)

text \<open>
  Claim C5. Applying \<open>updateFrameworkProgress\<close> twice with the same text and stage list
  gives the map of the first application: the second application unmarks nothing, the
  stages marked after it are those marked after the first, and they include every stage
  that was marked at the start.
\<close>

theorem updateFrameworkProgress_idempotent:
  "updateFrameworkProgress lc t steps (updateFrameworkProgress lc t steps p) =
     updateFrameworkProgress lc t steps p \<and>
   {k. map_of (updateFrameworkProgress lc t steps (updateFrameworkProgress lc t steps p)) k
         = Some True} =
     {k. map_of (updateFrameworkProgress lc t steps p) k = Some True} \<and>
   {k. map_of p k = Some True} \<subseteq>
     {k. map_of (updateFrameworkProgress lc t steps p) k = Some True}"
  by (auto simp: updateFrameworkProgress_twice map_of_updateFrameworkProgress)

section \<open>Rounding to doubles\<close>

text \<open>
  The double nearest to a positive \<open>x\<close> differs from it by at most \<open>x / 2^53\<close>; the error
  of the quotient and of its hundredfold together stays below \<open>x / 2^45\<close>, which is
  too little to move the rounded percentage across a half for any count an array can
  hold.
\<close>

lemma round_half_even_error: "\<bar>of_int (round_half_even m) - m\<bar> \<le> 1 / 2"
proof -
  have "of_int \<lfloor>m\<rfloor> \<le> m" "m < of_int \<lfloor>m\<rfloor> + 1" by linarith+
  then show ?thesis
    by (auto simp: round_half_even_def Let_def)
qed

lemma exponent_le:
  assumes "0 < x"
  shows "2 powi (exponent x) \<le> x"
proof -
  obtain a b where q: "quotient_of x = (a, b)" by (cases "quotient_of x")
  then have xab: "x = of_int a / of_int b" and b: "0 < b"
    by (simp_all add: quotient_of_div quotient_of_denom_pos)
  have a: "0 < a" using assms xab b by (simp add: zero_less_divide_iff)
  let ?la = "bitlen a" and ?lb = "bitlen b"
  have la: "2 ^ nat (?la - 1) \<le> a" using bitlen_bounds [OF a] by simp
  have lb: "b < 2 ^ nat ?lb" using bitlen_bounds [OF b] by simp
  have la1: "1 \<le> ?la" using a by (simp add: bitlen_alt_def)
  have lb0: "0 \<le> ?lb" by (rule bitlen_nonneg)
  have "(2::rat) powi (?la - 1) = of_int (2 ^ nat (?la - 1))"
    using la1 by (simp add: power_int_def)
  also have "\<dots> \<le> of_int a" using la by (simp only: of_int_le_iff)
  finally have A: "(2::rat) powi (?la - 1) \<le> of_int a" .
  have "(of_int b :: rat) < of_int (2 ^ nat ?lb)" using lb by (simp only: of_int_less_iff)
  also have "\<dots> = 2 powi ?lb" using lb0 by (simp add: power_int_def)
  finally have B: "(of_int b :: rat) < 2 powi ?lb" .
  show ?thesis
  proof (cases "2 powi (?la - ?lb) \<le> x")
    case True
    then show ?thesis by (simp add: exponent_def q)
  next
    case False
    have "(2::rat) powi (?la - ?lb - 1) * of_int b \<le> 2 powi (?la - ?lb - 1) * 2 powi ?lb"
      using B by (intro mult_left_mono) simp_all
    also have "\<dots> = 2 powi (?la - 1)"
      by (simp add: power_int_add [symmetric])
    also note A
    finally have "(2::rat) powi (?la - ?lb - 1) \<le> of_int a / of_int b"
      using b by (simp add: pos_le_divide_eq)
    moreover have "exponent x = ?la - ?lb - 1"
      using False by (simp add: exponent_def q)
    ultimately show ?thesis by (simp only: xab [symmetric])
  qed
qed

lemma exponent_less:
  assumes "0 < x"
  shows "x < 2 powi (exponent x + 1)"
proof -
  obtain a b where q: "quotient_of x = (a, b)" by (cases "quotient_of x")
  then have xab: "x = of_int a / of_int b" and b: "0 < b"
    by (simp_all add: quotient_of_div quotient_of_denom_pos)
  have a: "0 < a" using assms xab b by (simp add: zero_less_divide_iff)
  let ?la = "bitlen a" and ?lb = "bitlen b"
  have la: "a < 2 ^ nat ?la" using bitlen_bounds [OF a] by simp
  have lb: "2 ^ nat (?lb - 1) \<le> b" using bitlen_bounds [OF b] by simp
  have lb1: "1 \<le> ?lb" using b by (simp add: bitlen_alt_def)
  have la0: "0 \<le> ?la" by (rule bitlen_nonneg)
  have "(of_int a :: rat) < of_int (2 ^ nat ?la)" using la by (simp only: of_int_less_iff)
  also have "\<dots> = 2 powi ?la" using la0 by (simp add: power_int_def)
  finally have A: "(of_int a :: rat) < 2 powi ?la" .
  have "(2::rat) powi (?lb - 1) = of_int (2 ^ nat (?lb - 1))"
    using lb1 by (simp add: power_int_def)
  also have "\<dots> \<le> of_int b" using lb by (simp only: of_int_le_iff)
  finally have B: "(2::rat) powi (?lb - 1) \<le> of_int b" .
  show ?thesis
  proof (cases "2 powi (?la - ?lb) \<le> x")
    case True
    have "(of_int a :: rat) < 2 powi ?la" by (rule A)
    also have "\<dots> = 2 powi (?la - ?lb + 1) * 2 powi (?lb - 1)"
      by (simp add: power_int_add [symmetric])
    also have "\<dots> \<le> 2 powi (?la - ?lb + 1) * of_int b"
      using B by (intro mult_left_mono) simp_all
    finally have "of_int a / of_int b < (2::rat) powi (?la - ?lb + 1)"
      using b by (simp add: pos_divide_less_eq)
    moreover have "exponent x = ?la - ?lb"
      using True by (simp add: exponent_def q)
    ultimately show ?thesis by (simp only: xab [symmetric])
  next
    case False
    then show ?thesis by (simp add: exponent_def q)
  qed
qed

lemma fl_pos_error:
  assumes "0 < x"
  shows "\<bar>fl_pos x - x\<bar> \<le> x / 2 ^ 53"
proof -
  define e where "e = exponent x"
  define m where "m = x * 2 powi (52 - e)"
  define r where "r = round_half_even m"
  have one: "(2::rat) powi (52 - e) * 2 powi (e - 52) = 1"
    by (simp add: power_int_add [symmetric])
  have x: "x = m * 2 powi (e - 52)"
    unfolding m_def using one by (simp add: mult.assoc)
  have fl: "fl_pos x = of_int r * 2 powi (e - 52)"
    by (simp add: fl_pos_def Let_def e_def m_def r_def)
  have "\<bar>fl_pos x - x\<bar> = \<bar>of_int r - m\<bar> * 2 powi (e - 52)"
    unfolding fl by (subst x) (simp add: left_diff_distrib [symmetric] abs_mult)
  also have "\<dots> \<le> 1 / 2 * 2 powi (e - 52)"
    using round_half_even_error [of m] unfolding r_def by (intro mult_right_mono) simp_all
  also have "\<dots> = 2 powi e / 2 ^ 53"
    by (simp add: power_int_diff)
  also have "\<dots> \<le> x / 2 ^ 53"
    using exponent_le [OF assms] unfolding e_def by (simp add: divide_right_mono)
  finally show ?thesis .
qed

lemma fl_error: "0 \<le> x \<Longrightarrow> \<bar>fl x - x\<bar> \<le> x / 2 ^ 53"
  using fl_pos_error [of x] by (cases "x = 0") (simp_all add: fl_def)

lemma fl_nonneg: "0 \<le> x \<Longrightarrow> 0 \<le> fl x"
proof -
  assume x: "0 \<le> x"
  have "x / 2 ^ 53 \<le> x" using x by (simp add: field_simps)
  then show ?thesis using fl_error [OF x] by linarith
qed

lemma percent_error:
  assumes "0 \<le> x"
  shows "\<bar>fl (fl x * 100) - 100 * x\<bar> \<le> x / 2 ^ 45" and "0 \<le> fl (fl x * 100)"
proof -
  have q0: "0 \<le> fl x" using assms by (rule fl_nonneg)
  then have q100: "0 \<le> fl x * 100" by simp
  define q where "q = fl x"
  define y where "y = fl (q * 100)"
  have p53: "(2::rat) ^ 53 = 9007199254740992" and p45: "(2::rat) ^ 45 = 35184372088832"
    by simp_all
  have "\<bar>q - x\<bar> \<le> x / 2 ^ 53"
    unfolding q_def using assms by (rule fl_error)
  then have e1: "\<bar>q - x\<bar> \<le> x / 9007199254740992"
    unfolding p53 .
  have "\<bar>y - q * 100\<bar> \<le> q * 100 / 2 ^ 53"
    unfolding y_def q_def using q100 by (rule fl_error)
  then have e2: "\<bar>y - q * 100\<bar> \<le> q * 100 / 9007199254740992"
    unfolding p53 .
  have "\<bar>y - 100 * x\<bar> \<le> x / 35184372088832"
    using e1 e2 assms by linarith
  then have "\<bar>y - 100 * x\<bar> \<le> x / 2 ^ 45"
    unfolding p45 .
  then show "\<bar>fl (fl x * 100) - 100 * x\<bar> \<le> x / 2 ^ 45"
    by (simp only: y_def q_def)
  show "0 \<le> fl (fl x * 100)" using q100 by (rule fl_nonneg)
qed

lemma percent_scaled:
  fixes c n :: nat
  assumes "0 < n"
  defines "y \<equiv> fl (fl (of_nat c / of_nat n) * 100)"
  shows "y * of_nat n - 100 * of_nat c \<le> of_nat c / 35184372088832"
    and "100 * of_nat c - y * of_nat n \<le> of_nat c / 35184372088832"
    and "0 \<le> y"
proof -
  let ?C = "of_nat c :: rat" and ?N = "of_nat n :: rat"
  have N: "0 < ?N" using assms(1) by simp
  have x: "0 \<le> ?C / ?N" by simp
  have p45: "(2::rat) ^ 45 = 35184372088832" by simp
  have "\<bar>y - 100 * (?C / ?N)\<bar> \<le> ?C / ?N / 35184372088832"
    using percent_error(1) [OF x] unfolding y_def p45 .
  then have "\<bar>y - 100 * (?C / ?N)\<bar> * ?N \<le> ?C / ?N / 35184372088832 * ?N"
    using N by (intro mult_right_mono) simp_all
  moreover have "\<bar>y - 100 * (?C / ?N)\<bar> * ?N = \<bar>y * ?N - 100 * ?C\<bar>"
  proof -
    have "\<bar>y - 100 * (?C / ?N)\<bar> * ?N = \<bar>(y - 100 * (?C / ?N)) * ?N\<bar>"
      using N by (simp add: abs_mult)
    also have "(y - 100 * (?C / ?N)) * ?N = y * ?N - 100 * ?C"
      using N by (simp add: field_simps)
    finally show ?thesis .
  qed
  moreover have "?C / ?N / 35184372088832 * ?N = ?C / 35184372088832"
    using N by simp
  ultimately have "\<bar>y * ?N - 100 * ?C\<bar> \<le> ?C / 35184372088832" by simp
  then show "y * ?N - 100 * ?C \<le> ?C / 35184372088832"
    and "100 * ?C - y * ?N \<le> ?C / 35184372088832"
    by linarith+
  show "0 \<le> y" unfolding y_def using x by (rule percent_error(2))
qed

lemma Math_round_bounds:
  "of_int (Math_round y) \<le> y + 1 / 2" "y < of_int (Math_round y) + 1 / 2"
  unfolding Math_round_def by linarith+

lemma percent_nearest:
  fixes c n :: nat
  assumes "0 < n" and "c < 2 ^ 32"
  shows "\<bar>of_int (Math_round (fl (fl (of_nat c / of_nat n) * 100)))
           - 100 * of_nat c / of_nat n\<bar> \<le> (1 / 2 :: rat)"
proof -
  let ?C = "of_nat c :: rat" and ?N = "of_nat n :: rat"
  define y where "y = fl (fl (?C / ?N) * 100)"
  define k where "k = Math_round y"
  define yN where "yN = y * ?N"
  define KN where "KN = of_int k * ?N"
  define D where "D = 200 * int c - 2 * k * int n"
  have N: "0 < ?N" using assms(1) by simp
  have C: "?C < 4294967296"
  proof -
    have "c < 4294967296" using assms(2) by simp
    then show ?thesis by (simp only: of_nat_less_numeral_iff)
  qed
  have f1: "yN - 100 * ?C \<le> ?C / 35184372088832"
    and f2: "100 * ?C - yN \<le> ?C / 35184372088832"
    using percent_scaled(1,2) [OF assms(1), of c] unfolding y_def yN_def by simp_all
  have "of_int k * ?N \<le> (y + 1 / 2) * ?N"
    using Math_round_bounds(1) [of y] N unfolding k_def by (intro mult_right_mono) simp_all
  then have f4: "KN \<le> yN + ?N / 2"
    unfolding KN_def yN_def by (simp add: algebra_simps)
  have "y * ?N < (of_int k + 1 / 2) * ?N"
    using Math_round_bounds(2) [of y] N unfolding k_def by (intro mult_strict_right_mono)
  then have f3: "yN < KN + ?N / 2"
    unfolding KN_def yN_def by (simp add: algebra_simps)
  have D: "(of_int D :: rat) = 200 * ?C - 2 * KN"
    unfolding D_def KN_def by simp
  have "D \<le> int n"
  proof (rule ccontr)
    assume "\<not> D \<le> int n"
    then have "int n + 1 \<le> D" by simp
    then have "(of_int (int n + 1) :: rat) \<le> of_int D" by (simp only: of_int_le_iff)
    then have "?N + 1 \<le> 200 * ?C - 2 * KN" unfolding D by simp
    then show False using f2 f3 C by linarith
  qed
  moreover have "- int n \<le> D"
  proof (rule ccontr)
    assume "\<not> - int n \<le> D"
    then have "D \<le> - int n - 1" by simp
    then have "(of_int D :: rat) \<le> of_int (- int n - 1)" by (simp only: of_int_le_iff)
    then have "200 * ?C - 2 * KN \<le> - ?N - 1" unfolding D by simp
    then show False using f1 f4 C by linarith
  qed
  ultimately have "(of_int D :: rat) \<le> of_int (int n)" "(of_int (- int n) :: rat) \<le> of_int D"
    by (simp_all only: of_int_le_iff)
  then have b: "200 * ?C - 2 * KN \<le> ?N" "- ?N \<le> 200 * ?C - 2 * KN"
    unfolding D by simp_all
  have "\<bar>of_int k - 100 * ?C / ?N\<bar> * ?N = \<bar>(of_int k - 100 * ?C / ?N) * ?N\<bar>"
    using N by (simp add: abs_mult)
  also have "(of_int k - 100 * ?C / ?N) * ?N = KN - 100 * ?C"
    unfolding KN_def using N by (simp add: field_simps)
  also have "\<bar>KN - 100 * ?C\<bar> \<le> 1 / 2 * ?N" using b by linarith
  finally have "\<bar>of_int k - 100 * ?C / ?N\<bar> \<le> 1 / 2"
    using N by (simp only: mult_le_cancel_right_pos)
  then show ?thesis unfolding k_def y_def .
qed

lemma percent_nonneg: "0 < n \<Longrightarrow> 0 \<le> Math_round (fl (fl (of_nat c / of_nat n) * 100))"
proof -
  assume "0 < n"
  then have "0 \<le> fl (fl (of_nat c / of_nat n) * 100)" by (rule percent_scaled(3))
  then show ?thesis unfolding Math_round_def by simp
qed

lemma percent_le_100:
  fixes c n :: nat
  assumes "0 < n" "c \<le> n"
  shows "Math_round (fl (fl (of_nat c / of_nat n) * 100)) \<le> 100"
proof -
  let ?C = "of_nat c :: rat" and ?N = "of_nat n :: rat"
  define y where "y = fl (fl (?C / ?N) * 100)"
  have N: "0 < ?N" using assms(1) by simp
  have CN: "?C \<le> ?N" using assms(2) by simp
  define yN where "yN = y * ?N"
  have f1: "yN - 100 * ?C \<le> ?C / 35184372088832"
    using percent_scaled(1) [OF assms(1), of c] unfolding y_def yN_def by simp
  have "yN < 201 / 2 * ?N" using f1 CN N by linarith
  then have "y < 201 / 2" unfolding yN_def using N by (simp only: mult_less_cancel_right_pos)
  then have "y + 1 / 2 < of_int 101" by simp
  then have "\<lfloor>y + 1 / 2\<rfloor> < 101" by (simp only: floor_less_iff)
  then show ?thesis unfolding Math_round_def y_def by simp
qed

lemma percent_full:
  fixes n :: nat
  assumes "0 < n"
  shows "Math_round (fl (fl (of_nat n / of_nat n) * 100)) = 100"
proof -
  let ?N = "of_nat n :: rat"
  define y where "y = fl (fl (?N / ?N) * 100)"
  have N: "0 < ?N" using assms(1) by simp
  define yN where "yN = y * ?N"
  have f2: "100 * ?N - yN \<le> ?N / 35184372088832"
    using percent_scaled(2) [OF assms(1), of n] unfolding y_def yN_def by simp
  have "199 / 2 * ?N \<le> yN" using f2 N by linarith
  then have "199 / 2 \<le> y" unfolding yN_def using N by (simp only: mult_le_cancel_right_pos)
  then have "of_int 100 \<le> y + 1 / 2" by simp
  then have "100 \<le> \<lfloor>y + 1 / 2\<rfloor>" by (simp only: le_floor_iff)
  then have "100 \<le> Math_round y" unfolding Math_round_def .
  moreover have "Math_round y \<le> 100"
    unfolding y_def using assms by (intro percent_le_100) simp_all
  ultimately have "Math_round y = 100" by (rule antisym [rotated])
  then show ?thesis unfolding y_def .
qed

lemma percent_100_full:
  fixes c n :: nat
  assumes "Math_round (fl (fl (of_nat c / of_nat n) * 100)) = 100"
    and "n < 200" and "0 < n" and "c \<le> n"
  shows "c = n"
proof (rule ccontr)
  assume "c \<noteq> n"
  then have "c + 1 \<le> n" using assms(4) by simp
  then have le: "(of_nat (c + 1) :: rat) \<le> of_nat n" by (simp only: of_nat_le_iff)
  let ?C = "of_nat c :: rat" and ?N = "of_nat n :: rat"
  define y where "y = fl (fl (?C / ?N) * 100)"
  have N: "0 < ?N" using assms(3) by simp
  have CN: "?C + 1 \<le> ?N" using le by simp
  have N200: "?N \<le> 199"
  proof -
    have "n \<le> 199" using assms(2) by simp
    then show ?thesis by (simp only: of_nat_le_numeral_iff)
  qed
  define yN where "yN = y * ?N"
  have f1: "yN - 100 * ?C \<le> ?C / 35184372088832"
    using percent_scaled(1) [OF assms(3), of c] unfolding y_def yN_def by simp
  have "yN < 199 / 2 * ?N" using f1 CN N200 N by linarith
  then have "y < 199 / 2" unfolding yN_def using N by (simp only: mult_less_cancel_right_pos)
  then have "y + 1 / 2 < of_int 100" by simp
  then have "\<lfloor>y + 1 / 2\<rfloor> < 100" by (simp only: floor_less_iff)
  then show False using assms(1) unfolding Math_round_def y_def by simp
qed

section \<open>What the tracker marks\<close>

text \<open>\<open>includes_str\<close> is the substring test: the pattern occurs somewhere in the text.\<close>

lemma includes_str_iff: "includes_str t p \<longleftrightarrow> (\<exists>pre suf. t = pre @ p @ suf)"
proof (induction t)
  case Nil
  then show ?case by auto
next
  case (Cons c cs)
  show ?case
  proof
    assume "includes_str (c # cs) p"
    then consider "startsWith (c # cs) p" | "includes_str cs p" by auto
    then show "\<exists>pre suf. c # cs = pre @ p @ suf"
    proof cases
      case 1
      then obtain suf where "c # cs = p @ suf" by (auto simp: startsWith_iff)
      then have "c # cs = [] @ p @ suf" by simp
      then show ?thesis by blast
    next
      case 2
      then obtain pre suf where "cs = pre @ p @ suf" using Cons.IH by blast
      then have "c # cs = (c # pre) @ p @ suf" by simp
      then show ?thesis by blast
    qed
  next
    assume "\<exists>pre suf. c # cs = pre @ p @ suf"
    then obtain pre suf where eq: "c # cs = pre @ p @ suf" by blast
    show "includes_str (c # cs) p"
    proof (cases pre)
      case Nil
      then have "startsWith (c # cs) p" using eq by (auto simp: startsWith_iff)
      then show ?thesis by simp
    next
      case (Cons a pre')
      then have "cs = pre' @ p @ suf" using eq by simp
      then have "includes_str cs p" using Cons.IH by blast
      then show ?thesis by simp
    qed
  qed
qed

lemma found_iff:
  "found lc lower s \<longleftrightarrow>
   (\<exists>kw\<in>set (keywords s). \<exists>pre suf. lower = pre @ lc kw @ suf)"
  by (simp add: found_def list_ex_iff includes_str_iff)

lemma found_ascii:
  assumes "lowercases_ascii lc"
    and "list_all (\<lambda>u. u < 0x80) t" and "list_all (list_all (\<lambda>u. u < 0x80)) (keywords s)"
  shows "found lc (lc t) s = found ascii_toLowerCase (ascii_toLowerCase t) s"
proof -
  have "lc t = ascii_toLowerCase t"
    using assms(1,2) by (simp add: lowercases_ascii_def)
  moreover have "lc kw = ascii_toLowerCase kw" if "kw \<in> set (keywords s)" for kw
    using assms(1,3) that by (simp add: lowercases_ascii_def list_all_iff)
  ultimately show ?thesis
    by (simp add: found_def list_ex_iff)
qed

lemma scenarioA_ascii:
  "list_all (\<lambda>u. u < 0x80) scenarioA_reply"
  "list_all (list_all (\<lambda>u. u < 0x80)) (keywords scenarioA_stage)"
  by code_simp+

lemma scenarioA_found_ascii:
  "found ascii_toLowerCase (ascii_toLowerCase scenarioA_reply) scenarioA_stage"
  by code_simp

lemma scenarioA_found:
  "lowercases_ascii lc \<Longrightarrow> found lc (lc scenarioA_reply) scenarioA_stage"
  using scenarioA_found_ascii by (simp add: found_ascii scenarioA_ascii)

lemma scenarioA_key: "key scenarioA_stage = str ''problem''"
  by (simp add: scenarioA_stage_def)

lemma scenarioA_initial: "initialProgress [scenarioA_stage] = [(str ''problem'', False)]"
  by (simp add: initialProgress_def scenarioA_key assign_def str_inject)

lemma scenarioA_updated:
  "lowercases_ascii lc \<Longrightarrow>
   updateFrameworkProgress lc scenarioA_reply [scenarioA_stage] [(str ''problem'', False)] =
   [(str ''problem'', True)]"
  using scenarioA_found [of lc]
  by (simp add: updateFrameworkProgress_def scenarioA_key assign_def str_inject)

lemma scenarioA_percentage:
  "progressPercentage [scenarioA_stage] [(str ''problem'', True)] = 100"
  using percent_full [of 1] by (simp add: progressPercentage_def)

text \<open>The monotonic and the idempotent update, on scenario A.\<close>

theorem updateFrameworkProgress_monotonic_witness:
  "map_of [(str ''problem'', True)] (str ''problem'') = Some True \<and>
   map_of (updateFrameworkProgress ascii_toLowerCase (str ''Nothing to see'')
             [scenarioA_stage] [(str ''problem'', True)]) (str ''problem'') = Some True"
  using updateFrameworkProgress_monotonic
    [of "[(str ''problem'', True)]" "str ''problem''" ascii_toLowerCase
        "str ''Nothing to see''" "[scenarioA_stage]"]
  by simp

theorem updateFrameworkProgress_idempotent_witness:
  "updateFrameworkProgress ascii_toLowerCase scenarioA_reply [scenarioA_stage]
     (updateFrameworkProgress ascii_toLowerCase scenarioA_reply [scenarioA_stage]
        [(str ''problem'', False)]) =
   [(str ''problem'', True)]"
proof -
  have "updateFrameworkProgress ascii_toLowerCase scenarioA_reply [scenarioA_stage]
          [(str ''problem'', False)] = [(str ''problem'', True)]"
    using lowercases_ascii_ascii by (rule scenarioA_updated)
  then show ?thesis
    using updateFrameworkProgress_idempotent
      [of ascii_toLowerCase scenarioA_reply "[scenarioA_stage]" "[(str ''problem'', False)]"]
    by simp
qed

text \<open>
  Claim C2, as the code has it. After \<open>updateFrameworkProgress\<close> the entry under a key
  is \<open>true\<close> exactly when it was \<open>true\<close> before or a stage carrying that key has a
  keyword whose lower-cased form occurs in the lower-cased text; the one exception is the
  key \<open>__proto__\<close> on a map without an own property of that name, where the assignment
  is ignored. Every other entry is the one of the map given. In scenario A (the stage
  \<open>problem\<close> with the keywords \<open>problem\<close> and \<open>issue\<close>, the reply
  \<open>I see the core problem here\<close>) the entry of \<open>problem\<close> becomes \<open>true\<close>, and
  starting from the progress map of a freshly loaded stage list the percentage is 100.
\<close>

theorem updateFrameworkProgress_marks_matches:
  "map_of (updateFrameworkProgress lc t steps p) k =
     (if (\<exists>s\<in>set steps. key s = k \<and>
            (\<exists>kw\<in>set (keywords s). \<exists>pre suf. lc t = pre @ lc kw @ suf)) \<and>
         (k = str ''__proto__'' \<longrightarrow> map_of p k \<noteq> None)
      then Some True else map_of p k) \<and>
   (lowercases_ascii lc \<longrightarrow>
      map_of (updateFrameworkProgress lc scenarioA_reply [scenarioA_stage] p) (str ''problem'')
        = Some True \<and>
      progressPercentage [scenarioA_stage]
        (updateFrameworkProgress lc scenarioA_reply [scenarioA_stage]
           (initialProgress [scenarioA_stage])) = 100)"
proof -
  have "map_of (updateFrameworkProgress lc scenarioA_reply [scenarioA_stage] p)
          (str ''problem'') = Some True" if "lowercases_ascii lc"
    using scenarioA_found [OF that]
    by (simp add: map_of_updateFrameworkProgress scenarioA_key str_inject)
  then show ?thesis
    by (simp add: map_of_updateFrameworkProgress found_iff scenarioA_initial scenarioA_updated
        scenarioA_percentage)
qed

theorem updateFrameworkProgress_marks_matches_witness:
  "lowercases_ascii ascii_toLowerCase \<and>
   map_of (updateFrameworkProgress ascii_toLowerCase (str ''An Issue was raised'')
     [scenarioA_stage] [(str ''problem'', False)]) (str ''problem'') = Some True \<and>
   map_of (updateFrameworkProgress ascii_toLowerCase (str ''Nothing to see'')
     [scenarioA_stage] [(str ''problem'', False)]) (str ''problem'') = Some False \<and>
   progressPercentage [scenarioA_stage]
     (updateFrameworkProgress ascii_toLowerCase scenarioA_reply [scenarioA_stage]
        (initialProgress [scenarioA_stage])) = 100"
proof -
  have "found ascii_toLowerCase (ascii_toLowerCase (str ''An Issue was raised''))
          scenarioA_stage"
    by code_simp
  then have yes: "\<exists>s\<in>set [scenarioA_stage]. key s = str ''problem'' \<and>
          (\<exists>kw\<in>set (keywords s). \<exists>pre suf.
             ascii_toLowerCase (str ''An Issue was raised'') = pre @ ascii_toLowerCase kw @ suf)"
    by (simp add: found_iff scenarioA_key)
  have "\<not> found ascii_toLowerCase (ascii_toLowerCase (str ''Nothing to see''))
          scenarioA_stage"
    by code_simp
  then have no: "\<not> (\<exists>s\<in>set [scenarioA_stage]. key s = str ''problem'' \<and>
          (\<exists>kw\<in>set (keywords s). \<exists>pre suf.
             ascii_toLowerCase (str ''Nothing to see'') = pre @ ascii_toLowerCase kw @ suf))"
    by (simp add: found_iff scenarioA_key)
  have k: "str ''problem'' \<noteq> str ''__proto__''"
    by (simp add: str_inject)
  show ?thesis
    using updateFrameworkProgress_marks_matches
        [of ascii_toLowerCase "str ''An Issue was raised''" "[scenarioA_stage]"
            "[(str ''problem'', False)]" "str ''problem''"]
      updateFrameworkProgress_marks_matches
        [of ascii_toLowerCase "str ''Nothing to see''" "[scenarioA_stage]"
            "[(str ''problem'', False)]" "str ''problem''"]
      yes no k lowercases_ascii_ascii
    by simp
qed

lemma twins_found:
  "\<not> found ascii_toLowerCase (ascii_toLowerCase (str ''x'')) quiet_twin"
  "\<not> found ascii_toLowerCase (ascii_toLowerCase (str ''x'')) other_twin"
  "found ascii_toLowerCase (ascii_toLowerCase (str ''x'')) loud_twin"
  "found ascii_toLowerCase (ascii_toLowerCase (str ''x'')) proto_stage"
  by code_simp+

lemma twins_key:
  "key quiet_twin = str ''a''" "key other_twin = str ''a''" "key loud_twin = str ''a''"
  "key proto_stage = str ''__proto__''" "key proto_eager_stage = str ''__proto__''"
  by (simp_all add: quiet_twin_def other_twin_def loud_twin_def proto_stage_def
      proto_eager_stage_def)

text \<open>
  The claim as first stated speaks of the entry of a stage, but two stages may share a
  key: with the stages \<open>a\<close> (keyword \<open>never\<close>) and \<open>a\<close> (keyword \<open>x\<close>) and the text
  \<open>x\<close>, the entry of the first stage becomes \<open>true\<close> although none of its keywords is
  in the text. And a stage with the key \<open>__proto__\<close> whose keyword is in the text gets no
  entry in a map that had none.
\<close>

theorem updateFrameworkProgress_shared_key_counterexample:
  "\<not> found ascii_toLowerCase (ascii_toLowerCase (str ''x'')) other_twin \<and>
   map_of [(str ''a'', False)] (key other_twin) = Some False \<and>
   map_of (updateFrameworkProgress ascii_toLowerCase (str ''x'') [other_twin, loud_twin]
             [(str ''a'', False)]) (key other_twin) = Some True \<and>
   found ascii_toLowerCase (ascii_toLowerCase (str ''x'')) proto_stage \<and>
   map_of (updateFrameworkProgress ascii_toLowerCase (str ''x'') [proto_stage] [])
     (key proto_stage) = None"
  using twins_found
  by (simp add: map_of_updateFrameworkProgress twins_key str_inject)

text \<open>
  Claim C9, as the code has it. A stage without keywords leaves its entry as it was,
  provided no stage of the list with the same key is found in the text (with unique keys
  there is no other such stage). A stage with the empty string among its keywords reads
  as covered after the update, whatever the text, the empty text included: its own entry
  is \<open>true\<close>, except under the key \<open>__proto__\<close> on a map without an own property of that
  name, where the inherited property is what is read.
\<close>

theorem updateFrameworkProgress_keyword_edge_cases:
  "(s \<in> set steps \<and> keywords s = [] \<and>
      (\<forall>s'\<in>set steps. key s' = key s \<longrightarrow> \<not> found lc (lc t) s') \<longrightarrow>
      map_of (updateFrameworkProgress lc t steps p) (key s) = map_of p (key s)) \<and>
   (s \<in> set steps \<and> [] \<in> set (keywords s) \<and> lowercases_ascii lc \<longrightarrow>
      truthy_entry (updateFrameworkProgress lc t steps p) (key s) \<and>
      (key s \<noteq> str ''__proto__'' \<or> map_of p (key s) \<noteq> None \<longrightarrow>
         map_of (updateFrameworkProgress lc t steps p) (key s) = Some True))"
proof -
  have 1: "map_of (updateFrameworkProgress lc t steps p) (key s) = map_of p (key s)"
    if "\<forall>s'\<in>set steps. key s' = key s \<longrightarrow> \<not> found lc (lc t) s'"
    using that by (auto simp: map_of_updateFrameworkProgress)
  have f: "found lc (lc t) s" if "[] \<in> set (keywords s)" "lowercases_ascii lc"
  proof -
    have "lc [] = []" using that(2) by (simp add: lowercases_ascii_def ascii_toLowerCase_def)
    then show ?thesis
      unfolding found_def list_ex_iff
      using that(1) includes_str_empty [of "lc t"]
      by (intro bexI [of _ "[]"]) simp_all
  qed
  have 2: "map_of (updateFrameworkProgress lc t steps p) (key s) = Some True"
    if "s \<in> set steps" "[] \<in> set (keywords s)" "lowercases_ascii lc"
      "key s \<noteq> str ''__proto__'' \<or> map_of p (key s) \<noteq> None"
    using that f by (auto simp: map_of_updateFrameworkProgress)
  have 3: "truthy_entry (updateFrameworkProgress lc t steps p) (key s)"
    if "s \<in> set steps" "[] \<in> set (keywords s)" "lowercases_ascii lc"
  proof (cases "key s \<noteq> str ''__proto__'' \<or> map_of p (key s) \<noteq> None")
    case True
    then show ?thesis using 2 that by (simp add: truthy_entry_def)
  next
    case False
    then have "map_of (updateFrameworkProgress lc t steps p) (key s) = None"
      by (simp add: map_of_updateFrameworkProgress)
    moreover have "key s \<in> set Object_prototype_keys"
      using False by (simp add: Object_prototype_keys_def)
    ultimately show ?thesis by (simp add: truthy_entry_def)
  qed
  show ?thesis using 1 2 3 by blast
qed

theorem updateFrameworkProgress_keyword_edge_cases_witness:
  "lowercases_ascii ascii_toLowerCase \<and>
   map_of (updateFrameworkProgress ascii_toLowerCase [] [silent_stage, eager_stage]
             [(str ''silent'', False), (str ''eager'', False)]) (str ''silent'') = Some False \<and>
   map_of (updateFrameworkProgress ascii_toLowerCase [] [silent_stage, eager_stage]
             [(str ''silent'', False), (str ''eager'', False)]) (str ''eager'') = Some True \<and>
   truthy_entry (updateFrameworkProgress ascii_toLowerCase [] [silent_stage, eager_stage]
             [(str ''silent'', False), (str ''eager'', False)]) (str ''eager'')"
proof -
  have k: "key silent_stage = str ''silent''" "key eager_stage = str ''eager''"
    "keywords silent_stage = []" "keywords eager_stage = [[]]"
    by (simp_all add: silent_stage_def eager_stage_def)
  have nf: "\<not> found ascii_toLowerCase (ascii_toLowerCase []) silent_stage"
    by (simp add: found_def k)
  show ?thesis
    using updateFrameworkProgress_keyword_edge_cases
        [of silent_stage "[silent_stage, eager_stage]" ascii_toLowerCase "[]"
            "[(str ''silent'', False), (str ''eager'', False)]"]
      updateFrameworkProgress_keyword_edge_cases
        [of eager_stage "[silent_stage, eager_stage]" ascii_toLowerCase "[]"
            "[(str ''silent'', False), (str ''eager'', False)]"]
      nf lowercases_ascii_ascii
    by (simp add: k str_inject)
qed

text \<open>
  The claim as first stated fails for a stage without keywords that shares its key with
  a stage whose keyword is in the text: its entry goes from \<open>false\<close> to \<open>true\<close>. And
  under the key \<open>__proto__\<close> the empty keyword writes no entry of its own.
\<close>

theorem updateFrameworkProgress_keyword_counterexample:
  "keywords quiet_twin = [] \<and>
   map_of [(str ''a'', False)] (key quiet_twin) = Some False \<and>
   map_of (updateFrameworkProgress ascii_toLowerCase (str ''x'') [quiet_twin, loud_twin]
             [(str ''a'', False)]) (key quiet_twin) = Some True \<and>
   [] \<in> set (keywords proto_eager_stage) \<and>
   map_of (updateFrameworkProgress ascii_toLowerCase [] [proto_eager_stage] [])
     (key proto_eager_stage) = None"
  using twins_found
  by (simp add: map_of_updateFrameworkProgress twins_key str_inject)
    (simp add: quiet_twin_def proto_eager_stage_def)

section \<open>Properties of the percentage\<close>

lemma count_true_card:
  assumes "distinct (map fst p)"
  shows "length (filter (\<lambda>v. v = True) (map snd p)) = card {k. map_of p k = Some True}"
proof -
  have len: "length (filter (\<lambda>v. v = True) (map snd p)) = length (map fst (filter snd p))"
    by (induction p) auto
  have dist: "distinct (map fst (filter snd p))"
    using assms by (simp add: distinct_map_filter)
  have set_eq: "set (map fst (filter snd p)) = {k. map_of p k = Some True}"
    using assms by (force simp: image_iff)
  show ?thesis
    using distinct_card[OF dist] len set_eq by simp
qed

lemma true_keys_card:
  assumes "distinct (map key steps)" "distinct (map fst p)"
    "set (map fst p) \<subseteq> set (map key steps)"
  shows "length (filter (\<lambda>v. v = True) (map snd p)) \<le> length steps"
    and "length (filter (\<lambda>v. v = True) (map snd p)) = length steps \<longleftrightarrow>
         (\<forall>s\<in>set steps. map_of p (key s) = Some True)"
proof -
  let ?T = "{k. map_of p k = Some True}"
  let ?K = "set (map key steps)"
  have c: "length (filter (\<lambda>v. v = True) (map snd p)) = card ?T"
    using assms(2) by (rule count_true_card)
  have n: "card ?K = length steps"
    using assms(1) distinct_card [of "map key steps"] by simp
  have "?T \<subseteq> set (map fst p)"
    by (auto dest: map_of_SomeD intro: rev_image_eqI)
  then have sub: "?T \<subseteq> ?K" using assms(3) by blast
  have fin: "finite ?K" by simp
  show "length (filter (\<lambda>v. v = True) (map snd p)) \<le> length steps"
    using card_mono [OF fin sub] c n by simp
  have "card ?T = card ?K \<longleftrightarrow> ?T = ?K"
    using card_subset_eq [OF fin sub] by auto
  also have "?T = ?K \<longleftrightarrow> (\<forall>s\<in>set steps. map_of p (key s) = Some True)"
    using sub by auto
  finally show "length (filter (\<lambda>v. v = True) (map snd p)) = length steps \<longleftrightarrow>
         (\<forall>s\<in>set steps. map_of p (key s) = Some True)"
    using c n by simp
qed

lemma progressPercentage_nonempty:
  "steps \<noteq> [] \<Longrightarrow>
   progressPercentage steps p =
   Math_round (fl (fl (of_nat (length (filter (\<lambda>v. v = True) (map snd p)))
                         / of_nat (length steps)) * 100))"
  by (simp add: progressPercentage_def)

lemma progressPercentage_facts:
  assumes "distinct (map key steps)" and "distinct (map fst p)"
    and "set (map fst p) \<subseteq> set (map key steps)"
  shows "progressPercentage steps p \<le> 100"
    and "steps \<noteq> [] \<and> (\<forall>s\<in>set steps. map_of p (key s) = Some True) \<longrightarrow>
            progressPercentage steps p = 100"
    and "progressPercentage steps p = 100 \<and> length steps < 200 \<longrightarrow>
            steps \<noteq> [] \<and> (\<forall>s\<in>set steps. map_of p (key s) = Some True)"
proof -
  let ?c = "length (filter (\<lambda>v. v = True) (map snd p))"
  let ?n = "length steps"
  have le: "?c \<le> ?n" using assms by (rule true_keys_card(1))
  have all: "?c = ?n \<longleftrightarrow> (\<forall>s\<in>set steps. map_of p (key s) = Some True)"
    using assms by (rule true_keys_card(2))
  show "progressPercentage steps p \<le> 100"
  proof (cases "steps = []")
    case True
    then show ?thesis by (simp add: progressPercentage_def)
  next
    case False
    then have "0 < ?n" by simp
    then show ?thesis
      unfolding progressPercentage_nonempty [OF False] using le by (rule percent_le_100)
  qed
  show "steps \<noteq> [] \<and> (\<forall>s\<in>set steps. map_of p (key s) = Some True) \<longrightarrow>
            progressPercentage steps p = 100"
  proof (intro impI, elim conjE)
    assume ne: "steps \<noteq> []" and "\<forall>s\<in>set steps. map_of p (key s) = Some True"
    then have eq: "?c = ?n" using all by blast
    have "0 < ?n" using ne by simp
    then have "Math_round (fl (fl (of_nat ?n / of_nat ?n) * 100)) = 100"
      by (rule percent_full)
    then show "progressPercentage steps p = 100"
      unfolding progressPercentage_nonempty [OF ne] eq .
  qed
  show "progressPercentage steps p = 100 \<and> length steps < 200 \<longrightarrow>
            steps \<noteq> [] \<and> (\<forall>s\<in>set steps. map_of p (key s) = Some True)"
  proof (intro impI, elim conjE)
    assume h: "progressPercentage steps p = 100" "length steps < 200"
    have ne: "steps \<noteq> []"
    proof
      assume "steps = []"
      then have "progressPercentage steps p = 0" by (simp add: progressPercentage_def)
      then show False using h(1) by simp
    qed
    have pos: "0 < ?n" using ne by simp
    have r: "Math_round (fl (fl (of_nat ?c / of_nat ?n) * 100)) = 100"
      using h(1) unfolding progressPercentage_nonempty [OF ne] .
    have "?c = ?n" by (rule percent_100_full [OF r h(2) pos le])
    then show "steps \<noteq> [] \<and> (\<forall>s\<in>set steps. map_of p (key s) = Some True)"
      using ne all by blast
  qed
qed

text \<open>
  Claim C3, as the code has it. For every stage list and progress map the percentage is
  0 when the stage list is empty and never negative; otherwise it is an integer within
  1/2 of 100 * (number of true entries) / (number of stages), the number of true entries
  being the length of an array and so below \<open>2^32\<close>. When the stage keys are unique and
  the progress map (every key once) has stage keys only, the percentage is at most 100;
  it is 100 whenever the list is not empty and every stage's entry is true; and with
  fewer than 200 stages it is 100 only if the list is not empty and every stage's entry
  is true.
\<close>

theorem progressPercentage_bounds:
  "(steps = [] \<longrightarrow> progressPercentage steps p = 0) \<and>
   (steps \<noteq> [] \<and> length (filter (\<lambda>v. v = True) (map snd p)) < 2 ^ 32 \<longrightarrow>
      \<bar>of_int (progressPercentage steps p)
         - 100 * of_nat (length (filter (\<lambda>v. v = True) (map snd p)))
             / of_nat (length steps)\<bar> \<le> (1 / 2 :: rat)) \<and>
   0 \<le> progressPercentage steps p \<and>
   (distinct (map key steps) \<and> distinct (map fst p) \<and>
    set (map fst p) \<subseteq> set (map key steps) \<longrightarrow>
      progressPercentage steps p \<le> 100 \<and>
      (steps \<noteq> [] \<and> (\<forall>s\<in>set steps. map_of p (key s) = Some True) \<longrightarrow>
         progressPercentage steps p = 100) \<and>
      (progressPercentage steps p = 100 \<and> length steps < 200 \<longrightarrow>
         steps \<noteq> [] \<and> (\<forall>s\<in>set steps. map_of p (key s) = Some True)))"
proof (intro conjI)
  show "steps = [] \<longrightarrow> progressPercentage steps p = 0"
    by (simp add: progressPercentage_def)
  show "steps \<noteq> [] \<and> length (filter (\<lambda>v. v = True) (map snd p)) < 2 ^ 32 \<longrightarrow>
      \<bar>of_int (progressPercentage steps p)
         - 100 * of_nat (length (filter (\<lambda>v. v = True) (map snd p)))
             / of_nat (length steps)\<bar> \<le> (1 / 2 :: rat)"
  proof (intro impI, elim conjE)
    assume ne: "steps \<noteq> []" and c: "length (filter (\<lambda>v. v = True) (map snd p)) < 2 ^ 32"
    have "0 < length steps" using ne by simp
    then show "\<bar>of_int (progressPercentage steps p)
         - 100 * of_nat (length (filter (\<lambda>v. v = True) (map snd p)))
             / of_nat (length steps)\<bar> \<le> (1 / 2 :: rat)"
      unfolding progressPercentage_nonempty [OF ne] using c by (rule percent_nearest)
  qed
  show "0 \<le> progressPercentage steps p"
  proof (cases "steps = []")
    case True
    then show ?thesis by (simp add: progressPercentage_def)
  next
    case False
    then have "0 < length steps" by simp
    then show ?thesis
      unfolding progressPercentage_nonempty [OF False] by (rule percent_nonneg)
  qed
  show "distinct (map key steps) \<and> distinct (map fst p) \<and>
    set (map fst p) \<subseteq> set (map key steps) \<longrightarrow>
      progressPercentage steps p \<le> 100 \<and>
      (steps \<noteq> [] \<and> (\<forall>s\<in>set steps. map_of p (key s) = Some True) \<longrightarrow>
         progressPercentage steps p = 100) \<and>
      (progressPercentage steps p = 100 \<and> length steps < 200 \<longrightarrow>
         steps \<noteq> [] \<and> (\<forall>s\<in>set steps. map_of p (key s) = Some True))"
  proof (intro impI, elim conjE)
    assume h: "distinct (map key steps)" "distinct (map fst p)"
      "set (map fst p) \<subseteq> set (map key steps)"
    show "progressPercentage steps p \<le> 100 \<and>
      (steps \<noteq> [] \<and> (\<forall>s\<in>set steps. map_of p (key s) = Some True) \<longrightarrow>
         progressPercentage steps p = 100) \<and>
      (progressPercentage steps p = 100 \<and> length steps < 200 \<longrightarrow>
         steps \<noteq> [] \<and> (\<forall>s\<in>set steps. map_of p (key s) = Some True))"
      using progressPercentage_facts [OF h] by (intro conjI)
  qed
qed

lemma numbered_key_inj: "inj_on (\<lambda>i. key (numbered_stage i)) A"
proof (rule inj_onI)
  fix x y
  assume "key (numbered_stage x) = key (numbered_stage y)"
  then have "replicate x (0x49 :: 16 word) = replicate y 0x49"
    by (simp add: numbered_stage_def)
  then have "length (replicate x (0x49 :: 16 word)) = length (replicate y (0x49 :: 16 word))"
    by (rule arg_cong)
  then show "x = y" by simp
qed

lemma numbered_wellformed:
  "distinct (map key (map numbered_stage [0..<n]))"
  "distinct (map fst (map (\<lambda>i. (key (numbered_stage i), P i)) [0..<n]))"
  "set (map fst (map (\<lambda>i. (key (numbered_stage i), P i)) [0..<n]))
     \<subseteq> set (map key (map numbered_stage [0..<n]))"
  using numbered_key_inj by (auto simp: distinct_map comp_def)

lemma length_filter_pos: "length (filter (\<lambda>i. 0 < i) [0..<n]) = n - 1"
  by (induction n) auto

lemma length_filter_below: "length (filter (\<lambda>i. i < m) [0..<n]) = min m n"
  by (induction n) auto

lemma many_count: "length (filter (\<lambda>v. v = True) (map snd many_progress)) = 200"
proof -
  have "filter (\<lambda>v. v = True) (map snd many_progress) =
        map (\<lambda>i. 0 < i) (filter (\<lambda>i. 0 < i) [0..<201])"
    by (simp add: many_progress_def filter_map comp_def)
  then show ?thesis by (simp add: length_filter_pos)
qed

lemma forty_count: "length (filter (\<lambda>v. v = True) (map snd forty_progress)) = 23"
proof -
  have "filter (\<lambda>v. v = True) (map snd forty_progress) =
        map (\<lambda>i. i < 23) (filter (\<lambda>i. i < 23) [0..<40])"
    by (simp add: forty_progress_def filter_map comp_def)
  then show ?thesis by (simp add: length_filter_below)
qed

lemma round_23_of_40: "Math_round (fl (fl (23 / 40) * 100)) = 57"
  by code_simp

lemma round_200_of_201: "Math_round (fl (fl (200 / 201) * 100)) = 100"
  by code_simp

lemma round_2_of_1: "Math_round (fl (fl 2 * 100)) = 200"
  by code_simp

lemma forty_percentage: "progressPercentage forty_stages forty_progress = 57"
proof -
  have ne: "forty_stages \<noteq> []" by (simp add: forty_stages_def)
  have n: "length forty_stages = 40" by (simp add: forty_stages_def)
  show ?thesis
    unfolding progressPercentage_nonempty [OF ne] forty_count n
    using round_23_of_40 by simp
qed

lemma many_percentage: "progressPercentage many_stages many_progress = 100"
proof -
  have ne: "many_stages \<noteq> []" by (simp add: many_stages_def)
  have n: "length many_stages = 201" by (simp add: many_stages_def)
  show ?thesis
    unfolding progressPercentage_nonempty [OF ne] many_count n
    using round_200_of_201 by simp
qed

text \<open>
  With 23 of 40 stages covered the exact value is 57.5; the doubles give
  57.49999999999999, which rounds to 57.
\<close>

theorem progressPercentage_bounds_witness:
  "distinct (map key forty_stages) \<and> distinct (map fst forty_progress) \<and>
   set (map fst forty_progress) \<subseteq> set (map key forty_stages) \<and>
   forty_stages \<noteq> [] \<and>
   length (filter (\<lambda>v. v = True) (map snd forty_progress)) = 23 \<and>
   length forty_stages = 40 \<and>
   progressPercentage forty_stages forty_progress = 57 \<and>
   \<bar>of_int (progressPercentage forty_stages forty_progress) - 100 * 23 / 40\<bar>
     \<le> (1 / 2 :: rat)"
proof -
  have wf: "distinct (map key forty_stages)" "distinct (map fst forty_progress)"
    "set (map fst forty_progress) \<subseteq> set (map key forty_stages)"
    unfolding forty_stages_def forty_progress_def by (rule numbered_wellformed)+
  have ne: "forty_stages \<noteq> []" and n: "length forty_stages = 40"
    by (simp_all add: forty_stages_def)
  have c32: "length (filter (\<lambda>v. v = True) (map snd forty_progress)) < 2 ^ 32"
    unfolding forty_count by simp
  have "\<bar>of_int (progressPercentage forty_stages forty_progress)
          - 100 * of_nat (length (filter (\<lambda>v. v = True) (map snd forty_progress)))
              / of_nat (length forty_stages)\<bar> \<le> (1 / 2 :: rat)"
    by (rule progressPercentage_bounds [of forty_stages forty_progress,
          THEN conjunct2, THEN conjunct1, rule_format, OF conjI [OF ne c32]])
  then have "\<bar>of_int (progressPercentage forty_stages forty_progress) - 100 * 23 / 40\<bar>
     \<le> (1 / 2 :: rat)"
    unfolding forty_count n by simp
  then show ?thesis
    using wf ne n forty_count forty_percentage by (intro conjI)
qed

text \<open>
  The claim as first stated fails in three ways: a progress map with an entry that
  belongs to no stage gives 200; the empty stage list gives 0 although none of its stages
  has a false entry; and with 201 stages of which 200 are covered the percentage rounds to
  100 although the first stage is not covered.
\<close>

theorem progressPercentage_counterexample:
  "progressPercentage [scenarioA_stage] [(str ''problem'', True), (str ''old'', True)] = 200 \<and>
   progressPercentage [] [] = 0 \<and>
   progressPercentage many_stages many_progress = 100 \<and>
   numbered_stage 0 \<in> set many_stages \<and>
   map_of many_progress (key (numbered_stage 0)) = Some False"
proof -
  have "progressPercentage [scenarioA_stage] [(str ''problem'', True), (str ''old'', True)]
          = 200"
    using round_2_of_1 by (simp add: progressPercentage_def)
  moreover have "progressPercentage [] [] = 0"
    by (simp add: progressPercentage_def)
  moreover have "map_of many_progress (key (numbered_stage 0)) = Some False"
    by (simp add: many_progress_def upt_conv_Cons)
  moreover have "numbered_stage 0 \<in> set many_stages"
    by (simp add: many_stages_def)
  ultimately show ?thesis
    using many_percentage by (intro conjI)
qed

section \<open>Properties of the export\<close>

lemma find_filter_conv:
  "find P xs = (case filter P xs of [] \<Rightarrow> None | x # _ \<Rightarrow> Some x)"
  by (induction xs) auto

lemma emit_step_section:
  "emit_step lc msgs step out =
   out @ export_section (contains_key_ignoring_case lc) msgs step"
proof (cases "relevantMessages lc msgs step")
  case Nil
  then show ?thesis
    by (simp add: emit_step_def export_section_def find_filter_conv relevantMessages_def
        contains_key_ignoring_case_def)
next
  case (Cons m ms)
  then show ?thesis
    by (simp add: emit_step_def export_section_def find_filter_conv relevantMessages_def
        contains_key_ignoring_case_def)
qed

lemma fold_emit_step:
  "fold (emit_step lc msgs) steps out =
   out @ concat (map (export_section (contains_key_ignoring_case lc) msgs) steps)"
  by (induction steps arbitrary: out) (simp_all add: emit_step_section)

lemma generateStructuredOutput_document:
  "generateStructuredOutput lc today msgs steps progress pct =
   export_document (truthy_entry progress) (contains_key_ignoring_case lc) today msgs steps pct"
  by (simp add: generateStructuredOutput_def export_document_def export_header_def
      export_summary_def fold_emit_step)

text \<open>
  Claim C4, as the code has it. The document of \<open>generateStructuredOutput\<close> is the
  header, then one section for every stage whose progress entry reads as truthy (its own
  entry is \<open>true\<close>, or the map has no own entry and the key names a property inherited
  from \<open>Object.prototype\<close>) and none for any other stage, in the order of the stage list
  whatever the order of the messages, then the summary line counting the user messages.
  Each section is the heading (icon and title), the description and the content of the
  first assistant message, in history order, whose lower-cased text contains the
  lower-cased key of the stage; without such a message the section is the heading and
  the description alone.
\<close>

theorem generateStructuredOutput_sections:
  "generateStructuredOutput lc today msgs steps progress pct =
   export_document (truthy_entry progress) (contains_key_ignoring_case lc) today msgs steps pct"
  by (rule generateStructuredOutput_document)

lemma shouting_code:
  "generateStructuredOutput ascii_toLowerCase (str ''3.11.2026'') shouting_history
     [scenarioA_stage] [(str ''problem'', True)] 100 =
   str ''# Design Thinking Analyse\<newline>\<newline>**Datum:** 3.11.2026\<newline>''
     @ str ''**Fortschritt:** 100%\<newline>\<newline>''
     @ str ''## ! Problem\<newline>Kernproblem definieren\<newline>\<newline>''
     @ str ''The PROBLEM is unclear\<newline>\<newline>''
     @ str ''---\<newline>\<newline>**Generiert durch Design Thinking Coach v1.0**\<newline>''
     @ str ''**Session-Nachrichten:** 1\<newline>''"
  by code_simp

lemma shouting_spec:
  "export_document (entry_true [(str ''problem'', True)]) contains_key (str ''3.11.2026'')
     shouting_history [scenarioA_stage] 100 =
   str ''# Design Thinking Analyse\<newline>\<newline>**Datum:** 3.11.2026\<newline>''
     @ str ''**Fortschritt:** 100%\<newline>\<newline>''
     @ str ''## ! Problem\<newline>Kernproblem definieren\<newline>\<newline>''
     @ str ''Your problem is X\<newline>\<newline>''
     @ str ''---\<newline>\<newline>**Generiert durch Design Thinking Coach v1.0**\<newline>''
     @ str ''**Session-Nachrichten:** 1\<newline>''"
  by code_simp

lemma constructor_code:
  "generateStructuredOutput ascii_toLowerCase (str ''3.11.2026'') [] [constructor_stage] [] 0 =
   str ''# Design Thinking Analyse\<newline>\<newline>**Datum:** 3.11.2026\<newline>''
     @ str ''**Fortschritt:** 0%\<newline>\<newline>''
     @ str ''## * Constructor\<newline>D\<newline>\<newline>''
     @ str ''---\<newline>\<newline>**Generiert durch Design Thinking Coach v1.0**\<newline>''
     @ str ''**Session-Nachrichten:** 0\<newline>''"
  by code_simp

lemma constructor_spec:
  "export_document (entry_true []) (contains_key_ignoring_case ascii_toLowerCase)
     (str ''3.11.2026'') [] [constructor_stage] 0 =
   str ''# Design Thinking Analyse\<newline>\<newline>**Datum:** 3.11.2026\<newline>''
     @ str ''**Fortschritt:** 0%\<newline>\<newline>''
     @ str ''---\<newline>\<newline>**Generiert durch Design Thinking Coach v1.0**\<newline>''
     @ str ''**Session-Nachrichten:** 0\<newline>''"
  by code_simp

theorem generateStructuredOutput_sections_witness:
  "export_document (truthy_entry [(str ''problem'', True)])
     (contains_key_ignoring_case ascii_toLowerCase) (str ''3.11.2026'') shouting_history
     [scenarioA_stage] 100 =
   str ''# Design Thinking Analyse\<newline>\<newline>**Datum:** 3.11.2026\<newline>''
     @ str ''**Fortschritt:** 100%\<newline>\<newline>''
     @ str ''## ! Problem\<newline>Kernproblem definieren\<newline>\<newline>''
     @ str ''The PROBLEM is unclear\<newline>\<newline>''
     @ str ''---\<newline>\<newline>**Generiert durch Design Thinking Coach v1.0**\<newline>''
     @ str ''**Session-Nachrichten:** 1\<newline>''"
  unfolding generateStructuredOutput_sections [symmetric] by (rule shouting_code)

text \<open>
  With the plain substring test of the claim as first stated, the section of \<open>problem\<close>
  would hold \<open>Your problem is X\<close>, the first assistant message with the key as it is
  spelt. The code takes \<open>The PROBLEM is unclear\<close>, which comes first and matches
  without regard to case. And a stage with the key \<open>constructor\<close> gets a section from
  an empty progress map, in which no entry is \<open>true\<close>.
\<close>

theorem generateStructuredOutput_case_counterexample:
  "generateStructuredOutput ascii_toLowerCase (str ''3.11.2026'') shouting_history
     [scenarioA_stage] [(str ''problem'', True)] 100 =
   str ''# Design Thinking Analyse\<newline>\<newline>**Datum:** 3.11.2026\<newline>''
     @ str ''**Fortschritt:** 100%\<newline>\<newline>''
     @ str ''## ! Problem\<newline>Kernproblem definieren\<newline>\<newline>''
     @ str ''The PROBLEM is unclear\<newline>\<newline>''
     @ str ''---\<newline>\<newline>**Generiert durch Design Thinking Coach v1.0**\<newline>''
     @ str ''**Session-Nachrichten:** 1\<newline>'' \<and>
   \<not> includes_str (str ''The PROBLEM is unclear'') (key scenarioA_stage) \<and>
   generateStructuredOutput ascii_toLowerCase (str ''3.11.2026'') shouting_history
     [scenarioA_stage] [(str ''problem'', True)] 100 \<noteq>
   export_document (entry_true [(str ''problem'', True)]) contains_key (str ''3.11.2026'')
     shouting_history [scenarioA_stage] 100 \<and>
   map_of [] (key constructor_stage) = (None :: bool option) \<and>
   generateStructuredOutput ascii_toLowerCase (str ''3.11.2026'') [] [constructor_stage] [] 0 =
   str ''# Design Thinking Analyse\<newline>\<newline>**Datum:** 3.11.2026\<newline>''
     @ str ''**Fortschritt:** 0%\<newline>\<newline>''
     @ str ''## * Constructor\<newline>D\<newline>\<newline>''
     @ str ''---\<newline>\<newline>**Generiert durch Design Thinking Coach v1.0**\<newline>''
     @ str ''**Session-Nachrichten:** 0\<newline>'' \<and>
   generateStructuredOutput ascii_toLowerCase (str ''3.11.2026'') [] [constructor_stage] [] 0 \<noteq>
   export_document (entry_true []) (contains_key_ignoring_case ascii_toLowerCase)
     (str ''3.11.2026'') [] [constructor_stage] 0"
proof -
  have a: "\<not> includes_str (str ''The PROBLEM is unclear'') (key scenarioA_stage)"
    by code_simp
  have b: "generateStructuredOutput ascii_toLowerCase (str ''3.11.2026'') shouting_history
       [scenarioA_stage] [(str ''problem'', True)] 100 \<noteq>
     export_document (entry_true [(str ''problem'', True)]) contains_key (str ''3.11.2026'')
       shouting_history [scenarioA_stage] 100"
    unfolding shouting_code shouting_spec by code_simp
  have c: "generateStructuredOutput ascii_toLowerCase (str ''3.11.2026'') []
       [constructor_stage] [] 0 \<noteq>
     export_document (entry_true []) (contains_key_ignoring_case ascii_toLowerCase)
       (str ''3.11.2026'') [] [constructor_stage] 0"
    unfolding constructor_code constructor_spec by code_simp
  have d: "map_of [] (key constructor_stage) = (None :: bool option)" by simp
  show ?thesis
    using shouting_code a b d constructor_code c by (intro conjI)
qed

lemma title_line:
  "str ''# Design Thinking Analyse\<newline>\<newline>'' @ str ''**Datum:** '' =
   str ''# Design Thinking Analyse\<newline>\<newline>**Datum:** ''"
  by (simp add: str_def)

text \<open>
  Claim C8. The export is a function of its inputs and of the date read from the clock,
  and the date appears once, at a fixed place: the document is the fixed title, the date
  line with the date, and a rest that does not depend on the clock. Two exports of the
  same history, stages, progress and percentage differ in the date line at most.
\<close>

theorem generateStructuredOutput_clock_only_in_date_line:
  "\<exists>rest. \<forall>today.
     generateStructuredOutput lc today msgs steps progress pct =
     str ''# Design Thinking Analyse\<newline>\<newline>**Datum:** '' @ today @ str ''\<newline>''
       @ rest"
proof -
  let ?rest = "str ''**Fortschritt:** '' @ toString_int pct @ str ''%\<newline>\<newline>''
       @ concat (map (export_section (contains_key_ignoring_case lc) msgs)
                   (filter (\<lambda>step. truthy_entry progress (key step)) steps))
       @ export_summary msgs"
  have "\<forall>today. generateStructuredOutput lc today msgs steps progress pct =
     str ''# Design Thinking Analyse\<newline>\<newline>**Datum:** '' @ today @ str ''\<newline>''
       @ ?rest"
    by (simp add: generateStructuredOutput_document export_document_def export_header_def
        title_line [symmetric])
  then show ?thesis by (rule exI)
qed

theorem generateStructuredOutput_clock_only_in_date_line_witness:
  "\<exists>rest. \<forall>today.
     generateStructuredOutput ascii_toLowerCase today shouting_history [scenarioA_stage]
       [(str ''problem'', True)] 100 =
     str ''# Design Thinking Analyse\<newline>\<newline>**Datum:** '' @ today @ str ''\<newline>''
       @ rest"
  by (rule generateStructuredOutput_clock_only_in_date_line)

section \<open>Properties of the app\<close>

lemma errorMessage_prefix:
  "\<exists>more. errorMessage e =
     str ''Entschuldigung, es gab einen Fehler bei der Verbindung.'' @ more"
  by (cases e) (simp add: errorMessage_def)

lemma handleSendMessage_failed:
  assumes "trim (newMessage st) \<noteq> []" and "\<not> loading st"
    and "chatAPI_sendMessage outcome = Inl e"
  shows "fst (handleSendMessage lc now1 now2 now3 outcome ls st) =
         st\<lparr> newMessage := [], loading := False,
             messages := messages st @
               [\<lparr> type = user, content = trim (newMessage st), timestamp = now1,
                  isStructuredSummary = None \<rparr>,
                \<lparr> type = assistant, content = errorMessage e, timestamp = now3,
                  isStructuredSummary = None \<rparr>] \<rparr>"
  using assms by (simp add: handleSendMessage_def Let_def)

text \<open>A blank input, or a request under way, and the handler returns at once.\<close>

lemma handleSendMessage_guard:
  "trim (newMessage st) = [] \<or> loading st \<Longrightarrow>
   handleSendMessage lc now1 now2 now3 outcome ls st = (st, ls)"
  by (simp add: handleSendMessage_def)

lemma chatAPI_sendMessage_failures:
  "chatAPI_sendMessage (FetchRejected m) = Inl (Error m)"
  "\<not> response_ok status \<Longrightarrow>
   chatAPI_sendMessage (FetchResponse status body) =
     Inl (Error (str ''HTTP error! status: '' @ toString_nat status))"
  "response_ok status \<Longrightarrow> chatAPI_sendMessage (FetchResponse status (Inl e)) = Inl e"
  by (simp_all add: chatAPI_sendMessage_def)

text \<open>
  Claim C6. When the request to the provider fails (\<open>chatAPI.sendMessage\<close> throws), the
  history after \<open>handleSendMessage\<close> is the history before it, then the user's
  message, then an assistant message with the failure text, which begins with
  \<open>Entschuldigung, es gab einen Fehler bei der Verbindung.\<close>; the progress map is
  untouched and \<open>loading\<close> is cleared. The hypotheses say that the handler did send:
  the input was not blank and no request was under way.
\<close>

theorem handleSendMessage_keeps_user_message:
  assumes "trim (newMessage st) \<noteq> []" and "\<not> loading st"
    and "chatAPI_sendMessage outcome = Inl e"
  shows "messages (fst (handleSendMessage lc now1 now2 now3 outcome ls st)) =
           messages st @
             [\<lparr> type = user, content = trim (newMessage st), timestamp = now1,
                isStructuredSummary = None \<rparr>,
              \<lparr> type = assistant, content = errorMessage e, timestamp = now3,
                isStructuredSummary = None \<rparr>] \<and>
         (\<exists>more. errorMessage e =
            str ''Entschuldigung, es gab einen Fehler bei der Verbindung.'' @ more) \<and>
         frameworkProgress (fst (handleSendMessage lc now1 now2 now3 outcome ls st)) =
           frameworkProgress st \<and>
         \<not> loading (fst (handleSendMessage lc now1 now2 now3 outcome ls st))"
  using assms errorMessage_prefix [of e]
  by (simp add: handleSendMessage_failed)

lemma server_error_fails:
  "chatAPI_sendMessage server_error = Inl (Error (str ''HTTP error! status: 500''))"
  by code_simp

lemma trim_example:
  "trim ([0xA0] @ str ''We have a problem'' @ [0xA0]) = str ''We have a problem''"
  by code_simp

lemma trim_blank: "trim [0xA0, 0x20, 0x2028, 0xFEFF] = []"
  by code_simp

lemma blank_input_example:
  "handleSendMessage ascii_toLowerCase 10 11 12 server_error Map.empty
     (loaded_state\<lparr> newMessage := [0xA0, 0x20, 0x2028, 0xFEFF] \<rparr>) =
   (loaded_state\<lparr> newMessage := [0xA0, 0x20, 0x2028, 0xFEFF] \<rparr>, Map.empty)"
  by (rule handleSendMessage_guard) (simp add: trim_blank)

theorem handleSendMessage_keeps_user_message_witness:
  "trim (newMessage loaded_state) \<noteq> [] \<and> \<not> loading loaded_state \<and>
   chatAPI_sendMessage server_error = Inl (Error (str ''HTTP error! status: 500'')) \<and>
   messages (fst (handleSendMessage ascii_toLowerCase 10 11 12 server_error Map.empty
                    loaded_state)) =
     [\<lparr> type = user, content = str ''We have a problem'', timestamp = 10,
        isStructuredSummary = None \<rparr>,
      \<lparr> type = assistant,
        content = str ''Entschuldigung, es gab einen Fehler bei der Verbindung.'',
        timestamp = 12, isStructuredSummary = None \<rparr>]"
proof -
  have t: "trim (newMessage loaded_state) = str ''We have a problem''"
    using trim_example by (simp add: loaded_state_def)
  have ne: "str ''We have a problem'' \<noteq> []"
    by (simp add: str_def)
  have e: "errorMessage (Error (str ''HTTP error! status: 500'')) =
           str ''Entschuldigung, es gab einen Fehler bei der Verbindung.''"
    by code_simp
  have l: "\<not> loading loaded_state" and m: "messages loaded_state = []"
    by (simp_all add: loaded_state_def)
  show ?thesis
    using handleSendMessage_keeps_user_message
        [of loaded_state server_error "Error (str ''HTTP error! status: 500'')"
            ascii_toLowerCase 10 11 12 Map.empty]
      server_error_fails
    by (simp add: t e l m ne)
qed

lemma loadFrameworkStages_failed:
  "chatAPI_loadFrameworkStages outcome = Inl e \<Longrightarrow>
   loadFrameworkStages outcome st =
     st\<lparr> frameworkSteps := [], frameworkProgress := [], frameworkLoading := False \<rparr>"
  by (simp add: loadFrameworkStages_def)

lemma handleReloadFramework_stages:
  "frameworkSteps (handleReloadFramework now outcome st) =
     frameworkSteps (loadFrameworkStages outcome st)"
  "frameworkProgress (handleReloadFramework now outcome st) =
     frameworkProgress (loadFrameworkStages outcome st)"
  by (simp_all add: handleReloadFramework_def Let_def)

text \<open>
  Claim C7, as the code has it. \<open>chatAPI.loadFrameworkStages\<close> fails when the request
  is rejected, when the status of the response is not OK, when the body does not parse,
  and when the parsed body has no stage list (\<open>Framework stages not found in config\<close>);
  it succeeds otherwise. Whenever it fails, \<open>loadFrameworkStages\<close> of the app, and so
  the reload handler, replaces the stage list by the empty list and the progress map by
  the empty map.
\<close>

theorem loadFrameworkStages_failure_clears:
  "chatAPI_loadFrameworkStages (FetchRejected m) = Inl (Error m) \<and>
   (\<not> response_ok status \<longrightarrow>
      chatAPI_loadFrameworkStages (FetchResponse status body) =
        Inl (Error (str ''API config endpoint failed: '' @ toString_nat status))) \<and>
   (response_ok status \<longrightarrow>
      chatAPI_loadFrameworkStages (FetchResponse status (Inl e')) = Inl e') \<and>
   (response_ok status \<and> config_stages data = None \<longrightarrow>
      chatAPI_loadFrameworkStages (FetchResponse status (Inr data)) =
        Inl (Error (str ''Framework stages not found in config''))) \<and>
   (response_ok status \<and> config_stages data = Some ss \<longrightarrow>
      chatAPI_loadFrameworkStages (FetchResponse status (Inr data)) =
        Inr (map stage_of_config ss)) \<and>
   (chatAPI_loadFrameworkStages outcome = Inl e \<longrightarrow>
      frameworkSteps (loadFrameworkStages outcome st) = [] \<and>
      frameworkProgress (loadFrameworkStages outcome st) = [] \<and>
      frameworkSteps (handleReloadFramework now outcome st) = [] \<and>
      frameworkProgress (handleReloadFramework now outcome st) = [])"
proof (intro conjI impI)
  show "chatAPI_loadFrameworkStages (FetchRejected m) = Inl (Error m)"
    by (simp add: chatAPI_loadFrameworkStages_def)
  show "chatAPI_loadFrameworkStages (FetchResponse status body) =
        Inl (Error (str ''API config endpoint failed: '' @ toString_nat status))"
    if "\<not> response_ok status"
    using that by (simp add: chatAPI_loadFrameworkStages_def)
  show "chatAPI_loadFrameworkStages (FetchResponse status (Inl e')) = Inl e'"
    if "response_ok status"
    using that by (simp add: chatAPI_loadFrameworkStages_def)
  show "chatAPI_loadFrameworkStages (FetchResponse status (Inr data)) =
        Inl (Error (str ''Framework stages not found in config''))"
    if "response_ok status \<and> config_stages data = None"
    using that by (simp add: chatAPI_loadFrameworkStages_def)
  show "chatAPI_loadFrameworkStages (FetchResponse status (Inr data)) =
        Inr (map stage_of_config ss)"
    if "response_ok status \<and> config_stages data = Some ss"
    using that by (simp add: chatAPI_loadFrameworkStages_def)
next
  assume f: "chatAPI_loadFrameworkStages outcome = Inl e"
  show "frameworkSteps (loadFrameworkStages outcome st) = []"
    and "frameworkProgress (loadFrameworkStages outcome st) = []"
    and "frameworkSteps (handleReloadFramework now outcome st) = []"
    and "frameworkProgress (handleReloadFramework now outcome st) = []"
    unfolding handleReloadFramework_stages loadFrameworkStages_failed [OF f] by simp_all
qed

lemma missing_stages_fails:
  "chatAPI_loadFrameworkStages missing_stages =
     Inl (Error (str ''Framework stages not found in config''))"
  by (simp add: missing_stages_def chatAPI_loadFrameworkStages_def response_ok_def
      config_stages_def)

theorem loadFrameworkStages_failure_clears_witness:
  "response_ok 200 \<and> \<not> response_ok 503 \<and>
   config_stages \<lparr> config = Some \<lparr> framework = Some \<lparr> stages = None \<rparr> \<rparr> \<rparr> = None \<and>
   chatAPI_loadFrameworkStages missing_stages =
     Inl (Error (str ''Framework stages not found in config'')) \<and>
   chatAPI_loadFrameworkStages (FetchResponse 503 (Inl (Error (str ''Unexpected token'')))) =
     Inl (Error (str ''API config endpoint failed: '' @ str ''503'')) \<and>
   frameworkSteps (loadFrameworkStages missing_stages loaded_state) = [] \<and>
   frameworkProgress (loadFrameworkStages missing_stages loaded_state) = [] \<and>
   frameworkSteps (handleReloadFramework 20 missing_stages loaded_state) = []"
proof -
  note inst = loadFrameworkStages_failure_clears
      [of "str ''x''" 503 "Inl (Error (str ''Unexpected token''))" "Error (str ''x'')"
          "\<lparr> config = Some \<lparr> framework = Some \<lparr> stages = None \<rparr> \<rparr> \<rparr>" "[]"
          missing_stages "Error (str ''Framework stages not found in config'')"
          loaded_state 20]
  have ok: "response_ok 200" "\<not> response_ok 503"
    by (simp_all add: response_ok_def)
  have none: "config_stages \<lparr> config = Some \<lparr> framework = Some \<lparr> stages = None \<rparr> \<rparr> \<rparr> = None"
    by (simp add: config_stages_def)
  have n: "toString_nat 503 = str ''503''"
    by (simp add: toString_nat.simps digit_char_def str_def)
  have bad: "chatAPI_loadFrameworkStages
        (FetchResponse 503 (Inl (Error (str ''Unexpected token'')))) =
      Inl (Error (str ''API config endpoint failed: '' @ str ''503''))"
    using inst [THEN conjunct2, THEN conjunct1, rule_format, OF ok(2)]
    unfolding n .
  have cleared: "frameworkSteps (loadFrameworkStages missing_stages loaded_state) = [] \<and>
      frameworkProgress (loadFrameworkStages missing_stages loaded_state) = [] \<and>
      frameworkSteps (handleReloadFramework 20 missing_stages loaded_state) = [] \<and>
      frameworkProgress (handleReloadFramework 20 missing_stages loaded_state) = []"
    by (rule inst [THEN conjunct2, THEN conjunct2, THEN conjunct2, THEN conjunct2,
          THEN conjunct2, rule_format, OF missing_stages_fails])
  show ?thesis
    using ok none missing_stages_fails bad cleared by (intro conjI) simp_all
qed

text \<open>
  The claim as first stated fails: after a reload that finds no stage list, the stage
  list of the app is empty, not the one loaded before.
\<close>

theorem loadFrameworkStages_reload_counterexample:
  "chatAPI_loadFrameworkStages missing_stages =
     Inl (Error (str ''Framework stages not found in config'')) \<and>
   frameworkSteps loaded_state = [scenarioA_stage] \<and>
   frameworkSteps (loadFrameworkStages missing_stages loaded_state) = [] \<and>
   frameworkSteps (loadFrameworkStages missing_stages loaded_state) \<noteq>
     frameworkSteps loaded_state \<and>
   frameworkSteps (handleReloadFramework 20 missing_stages loaded_state) = []"
  unfolding handleReloadFramework_stages loadFrameworkStages_failed [OF missing_stages_fails]
  by (simp add: missing_stages_fails) (simp add: loaded_state_def)

section \<open>Properties of the session id\<close>

lemma getSessionId_stored:
  "snd (getSessionId now ls) (str ''dt-session-id'') = Some (fst (getSessionId now ls)) \<and>
   fst (getSessionId now ls) \<noteq> []"
  by (simp add: getSessionId_def str_def split: option.split)

lemma getSessionId_reads:
  "ls (str ''dt-session-id'') = Some sid \<Longrightarrow> sid \<noteq> [] \<Longrightarrow>
   getSessionId now ls = (sid, ls)"
  by (simp add: getSessionId_def)

text \<open>
  Claim C10. A call of \<open>getSessionId\<close> on a storage whose item \<open>dt-session-id\<close> is
  the one an earlier call left returns the id of the earlier call and leaves the storage
  as it is, whatever the clock says. The earlier call makes and stores the id
  \<open>session-\<close> followed by the time when nothing is stored, and returns a stored,
  non-empty id unchanged.
\<close>

theorem getSessionId_stable:
  "(ls' (str ''dt-session-id'') = snd (getSessionId now1 ls) (str ''dt-session-id'') \<longrightarrow>
      getSessionId now2 ls' = (fst (getSessionId now1 ls), ls')) \<and>
   (ls (str ''dt-session-id'') = None \<longrightarrow>
      getSessionId now1 ls =
        (str ''session-'' @ toString_int now1,
         ls(str ''dt-session-id'' \<mapsto> str ''session-'' @ toString_int now1))) \<and>
   (ls (str ''dt-session-id'') = Some sid \<and> sid \<noteq> [] \<longrightarrow>
      getSessionId now1 ls = (sid, ls))"
proof -
  have "getSessionId now2 ls' = (fst (getSessionId now1 ls), ls')"
    if "ls' (str ''dt-session-id'') = snd (getSessionId now1 ls) (str ''dt-session-id'')"
    using that getSessionId_stored [of now1 ls] by (intro getSessionId_reads) simp_all
  then show ?thesis
    by (simp add: getSessionId_reads) (simp add: getSessionId_def)
qed

theorem getSessionId_stable_witness:
  "getSessionId 1762177000000 Map.empty =
     (str ''session-1762177000000'',
      [str ''dt-session-id'' \<mapsto> str ''session-1762177000000'']) \<and>
   getSessionId 1762177999999 [str ''dt-session-id'' \<mapsto> str ''session-1762177000000''] =
     (str ''session-1762177000000'',
      [str ''dt-session-id'' \<mapsto> str ''session-1762177000000''])"
proof -
  have n: "str ''session-'' @ toString_int 1762177000000 = str ''session-1762177000000''"
    by (simp add: toString_int_def toString_nat.simps digit_char_def str_def)
  have first: "getSessionId 1762177000000 Map.empty =
     (str ''session-1762177000000'',
      [str ''dt-session-id'' \<mapsto> str ''session-1762177000000''])"
    using getSessionId_stable [of Map.empty 1762177000000 Map.empty 0 "[]"]
    by (simp add: n)
  have "getSessionId 1762177999999 [str ''dt-session-id'' \<mapsto> str ''session-1762177000000''] =
     (str ''session-1762177000000'',
      [str ''dt-session-id'' \<mapsto> str ''session-1762177000000''])"
    using getSessionId_stable
        [of "[str ''dt-session-id'' \<mapsto> str ''session-1762177000000'']" 1762177000000
            Map.empty 1762177999999 "[]"]
    by (simp add: first n)
  then show ?thesis by (simp add: first)
qed

end
